theory Spec2Isabelle
  imports Main "HOL-Library.AList"
begin

section \<open>Values sent over the wire\<close>

text \<open>
  Python dictionaries keep insertion order, so a dict literal is an association list of
  its keys and values. JSON-like values are the ones the three source files build.
\<close>

datatype json =
    JNull
  | JStr string
  | JInt int
  | JList "json list"
  | JObj "(string \<times> json) list"

type_synonym message = "(string \<times> json) list"

type_synonym user_id = int

text \<open>A WebSocket object is known by its identity; its mutable fields live in a store.\<close>

type_synonym ws = nat

section \<open>websocket\_manager.py: the connection registry\<close>

datatype WebSocketState = CONNECTING | CONNECTED | DISCONNECTED

text \<open>
  The part of a Starlette WebSocket that the manager reads or changes:
  \<open>application_state\<close>, and whether a write on the underlying transport goes through
  (\<open>transport_ok\<close>; when it does not, \<open>send_json\<close> raises).
\<close>

record socket =
  application_state :: WebSocketState
  transport_ok :: bool

text \<open>
  The \<open>ConnectionManager\<close> object together with the world it acts on:
  \<^item> \<open>connections\<close> is \<open>self._connections : Dict[int, Set[WebSocket]]\<close>, a dict in insertion
    order; each set is a duplicate-free list, in the order \<open>list(set)\<close> enumerates it;
  \<^item> \<open>sockets\<close> is the store of WebSocket objects;
  \<^item> \<open>wire\<close> records every frame a transport accepted: the socket and the message.

  Each method is modelled as one run from its first line to its last, with no other
  coroutine changing the registry in between.
\<close>

record manager =
  connections :: "(user_id \<times> ws list) list"
  sockets :: "ws \<Rightarrow> socket"
  wire :: "(ws \<times> message) list"

datatype error = WebSocketDisconnect | HTTPException nat string | DatabaseError

definition set_add :: "ws \<Rightarrow> ws list \<Rightarrow> ws list" where
  "set_add w s = (if w \<in> set s then s else s @ [w])"

definition set_discard :: "ws \<Rightarrow> ws list \<Rightarrow> ws list" where
  "set_discard w s = removeAll w s"

text \<open>\<open>self._connections.get(user_id, [])\<close>\<close>

definition get_or_empty :: "(user_id \<times> ws list) list \<Rightarrow> user_id \<Rightarrow> ws list" where
  "get_or_empty d uid = (case map_of d uid of None \<Rightarrow> [] | Some s \<Rightarrow> s)"

definition is_open :: "manager \<Rightarrow> ws \<Rightarrow> bool" where
  "is_open m w \<longleftrightarrow> application_state (sockets m w) = CONNECTED"

text \<open>
  \<open>websocket.accept()\<close>: the handshake completes and the application side is connected.
\<close>

definition accept :: "ws \<Rightarrow> manager \<Rightarrow> manager" where
  "accept w m = m\<lparr>sockets := (sockets m)(w := (sockets m w)\<lparr>application_state := CONNECTED\<rparr>)\<rparr>"

text \<open>
  \<open>ws.close()\<close>: Starlette marks the application side disconnected before it writes the
  close frame, so the state changes whether or not the write raises.
\<close>

definition close :: "ws \<Rightarrow> manager \<Rightarrow> manager" where
  "close w m = m\<lparr>sockets := (sockets m)(w := (sockets m w)\<lparr>application_state := DISCONNECTED\<rparr>)\<rparr>"

text \<open>\<open>_safe_close\<close>: close only a connected socket, and swallow whatever \<open>close\<close> raises.\<close>

definition safe_close :: "ws \<Rightarrow> manager \<Rightarrow> manager" where
  "safe_close w m = (if application_state (sockets m w) = CONNECTED then close w m else m)"

text \<open>
  \<open>ws.send_json(message)\<close>: the frame reaches the wire, or the call raises.
\<close>

definition send_json :: "ws \<Rightarrow> message \<Rightarrow> manager \<Rightarrow> error + manager" where
  "send_json w msg m =
     (if transport_ok (sockets m w) then Inr (m\<lparr>wire := wire m @ [(w, msg)]\<rparr>)
      else Inl WebSocketDisconnect)"

definition connect :: "user_id \<Rightarrow> ws \<Rightarrow> manager \<Rightarrow> manager" where
  "connect uid w m =
     (let m1 = accept w m
      in m1\<lparr>connections :=
           AList.update uid (set_add w (get_or_empty (connections m1) uid)) (connections m1)\<rparr>)"

definition disconnect :: "user_id \<Rightarrow> manager \<Rightarrow> manager" where
  "disconnect uid m =
     (let socks = get_or_empty (connections m) uid;
          m1 = m\<lparr>connections := AList.delete uid (connections m)\<rparr>
      in fold safe_close socks m1)"

definition disconnect_socket :: "user_id \<Rightarrow> ws \<Rightarrow> manager \<Rightarrow> manager" where
  "disconnect_socket uid w m =
     (let m1 =
        (case map_of (connections m) uid of
           None \<Rightarrow> m
         | Some s \<Rightarrow>
             if s \<noteq> [] \<and> w \<in> set s then
               (let s' = remove1 w s
                in if s' = [] then m\<lparr>connections := AList.delete uid (connections m)\<rparr>
                   else m\<lparr>connections := AList.update uid s' (connections m)\<rparr>)
             else m)
      in safe_close w m1)"

text \<open>
  The loop shared by \<open>send_personal_message\<close> and \<open>broadcast\<close>: a socket that is not open,
  or whose \<open>send_json\<close> raises, is appended to \<open>dead\<close>; the loop goes on either way.
\<close>

fun send_loop :: "message \<Rightarrow> ws list \<Rightarrow> ws list \<Rightarrow> manager \<Rightarrow> ws list \<times> manager" where
  "send_loop msg [] dead m = (dead, m)"
| "send_loop msg (w # rest) dead m =
     (if \<not> is_open m w then send_loop msg rest (dead @ [w]) m
      else (case send_json w msg m of
              Inl e \<Rightarrow> send_loop msg rest (dead @ [w]) m
            | Inr m' \<Rightarrow> send_loop msg rest dead m'))"

text \<open>
  The block under the lock that follows the loop when \<open>dead\<close> is not empty.
\<close>

definition prune :: "user_id \<Rightarrow> ws list \<Rightarrow> manager \<Rightarrow> manager" where
  "prune uid dead m =
     (case map_of (connections m) uid of
        None \<Rightarrow> m
      | Some s \<Rightarrow>
          if s \<noteq> [] then
            (let s' = fold set_discard dead s
             in if s' = [] then m\<lparr>connections := AList.delete uid (connections m)\<rparr>
                else m\<lparr>connections := AList.update uid s' (connections m)\<rparr>)
          else m)"

definition prune_and_close :: "user_id \<Rightarrow> ws list \<Rightarrow> manager \<Rightarrow> manager" where
  "prune_and_close uid dead m =
     (if dead \<noteq> [] then fold safe_close dead (prune uid dead m) else m)"

definition send_personal_message :: "message \<Rightarrow> user_id \<Rightarrow> manager \<Rightarrow> manager" where
  "send_personal_message msg uid m =
     (let socks = get_or_empty (connections m) uid
      in if socks = [] then m
         else (case send_loop msg socks [] m of (dead, m1) \<Rightarrow> prune_and_close uid dead m1))"

fun broadcast_loop :: "message \<Rightarrow> (user_id \<times> ws list) list \<Rightarrow> manager \<Rightarrow> manager" where
  "broadcast_loop msg [] m = m"
| "broadcast_loop msg ((uid, socks) # rest) m =
     (case send_loop msg socks [] m of
        (dead, m1) \<Rightarrow> broadcast_loop msg rest (prune_and_close uid dead m1))"

definition broadcast :: "message \<Rightarrow> manager \<Rightarrow> manager" where
  "broadcast msg m = broadcast_loop msg (connections m) m"

definition user_connection_count :: "manager \<Rightarrow> user_id \<Rightarrow> nat" where
  "user_connection_count m uid = length (get_or_empty (connections m) uid)"


section \<open>Sequences of registry operations\<close>

text \<open>
  The registry invariant of the data model: no user is mapped to an empty set.
\<close>

definition no_empty_entries :: "manager \<Rightarrow> bool" where
  "no_empty_entries m \<longleftrightarrow> (\<forall>(uid, s) \<in> set (connections m). s \<noteq> [])"

datatype operation =
    Register user_id ws
  | Unregister user_id ws
  | UnregisterAll user_id
  | SendToUser user_id message
  | Broadcast message

fun apply_operation :: "operation \<Rightarrow> manager \<Rightarrow> manager" where
  "apply_operation (Register uid w) m = connect uid w m"
| "apply_operation (Unregister uid w) m = disconnect_socket uid w m"
| "apply_operation (UnregisterAll uid) m = disconnect uid m"
| "apply_operation (SendToUser uid msg) m = send_personal_message msg uid m"
| "apply_operation (Broadcast msg) m = broadcast msg m"

text \<open>A registry with nobody connected, over sockets that have not been accepted yet.\<close>

definition fresh_socket :: socket where
  "fresh_socket = \<lparr>application_state = CONNECTING, transport_ok = True\<rparr>"

definition empty_manager :: manager where
  "empty_manager = \<lparr>connections = [], sockets = (\<lambda>w. fresh_socket), wire = []\<rparr>"

section \<open>Vocabulary for the delivery properties\<close>

text \<open>
  A connection is healthy (live) when the manager would write to it and the write would go
  through: it passes \<open>_is_open\<close> and its \<open>send_json\<close> does not raise. Every other
  registered connection has failed.
\<close>

definition healthy :: "manager \<Rightarrow> ws \<Rightarrow> bool" where
  "healthy m w \<longleftrightarrow> is_open m w \<and> transport_ok (sockets m w)"

text \<open>
  A well-formed registry is a dict (no key twice) that satisfies the registry invariant.
\<close>

definition registry_wf :: "manager \<Rightarrow> bool" where
  "registry_wf m \<longleftrightarrow> distinct (map fst (connections m)) \<and> no_empty_entries m"



text \<open>
  What a fan-out over registry \<open>d\<close> is expected to leave behind and to put on the wire, given
  which sockets are healthy: the registry keeps the healthy sockets and drops the users that
  have none left; each healthy socket gets the message once, in registry order.
\<close>

definition survivors :: "(ws \<Rightarrow> bool) \<Rightarrow> (user_id \<times> ws list) list \<Rightarrow> (user_id \<times> ws list) list" where
  "survivors h d = filter (\<lambda>(uid, s). s \<noteq> []) (map (\<lambda>(uid, s). (uid, filter h s)) d)"

definition deliveries :: "(ws \<Rightarrow> bool) \<Rightarrow> message \<Rightarrow> (user_id \<times> ws list) list \<Rightarrow> (ws \<times> message) list" where
  "deliveries h msg d = concat (map (\<lambda>(uid, s). map (\<lambda>w. (w, msg)) (filter h s)) d)"

section \<open>main.py: the WebSocket endpoint\<close>

text \<open>
  \<open>websocket.receive_text()\<close> in \<open>while True\<close>: the frames the client sends are read and
  dropped; when the client is gone the call raises and the loop ends with that exception.
  The loop ends in no other way, so its runs that end are those of a client that sends
  finitely many frames and then goes away.
\<close>

fun receive_loop :: "string list \<Rightarrow> error" where
  "receive_loop [] = WebSocketDisconnect"
| "receive_loop (frame # frames) = receive_loop frames"

text \<open>
  A call of an \<open>async def\<close> only builds a coroutine: a suspended computation on the manager.
  Its body runs when the coroutine is awaited.
\<close>

type_synonym coroutine = "manager \<Rightarrow> manager"

definition await :: "coroutine \<Rightarrow> manager \<Rightarrow> manager" where
  "await c m = c m"

text \<open>
  \<open>websocket_endpoint\<close>. \<open>auth\<close> is the outcome of \<open>jwt.decode\<close>: the user id, or \<open>None\<close> for a
  \<open>JWTError\<close>. In the handler of the read loop the source writes \<open>manager.disconnect(user_id)\<close>
  as a statement, without \<open>await\<close>: the coroutine is built and dropped.
\<close>

definition websocket_endpoint :: "ws \<Rightarrow> user_id option \<Rightarrow> string list \<Rightarrow> manager \<Rightarrow> manager" where
  "websocket_endpoint websocket auth frames m =
     (case auth of
        None \<Rightarrow> close websocket m
      | Some uid \<Rightarrow>
          (let m1 = await (connect uid websocket) m;
               e = receive_loop frames;
               dropped = (disconnect uid :: coroutine)
           in m1))"

section \<open>notifications.py: the notification records\<close>

text \<open>A row of the \<open>notifications\<close> table; the fields are its columns.\<close>

record notification =
  n_id :: int
  n_user_id :: user_id
  n_message :: string
  n_type :: string
  n_is_read :: bool
  n_timestamp :: string
  n_data :: "string option"

text \<open>
  \<open>UPDATE notifications SET is_read=1 WHERE ...\<close> and the cursor's \<open>rowcount\<close> after it.
  MySQL reports the rows an UPDATE changed; it reports the rows the WHERE clause matched only
  to a client that connected with the \<open>FOUND_ROWS\<close> flag.
\<close>

definition update_set_read :: "(notification \<Rightarrow> bool) \<Rightarrow> notification list \<Rightarrow> notification list" where
  "update_set_read P t = map (\<lambda>r. if P r then r\<lparr>n_is_read := True\<rparr> else r) t"

definition rowcount :: "bool \<Rightarrow> (notification \<Rightarrow> bool) \<Rightarrow> notification list \<Rightarrow> nat" where
  "rowcount found_rows P t =
     length (filter (\<lambda>r. P r \<and> (found_rows \<or> \<not> n_is_read r)) t)"

text \<open>
  \<open>get_db\<close> calls \<open>mysql.connector.connect\<close> with host, port, user, password and database
  only: no \<open>client_flags\<close>, so the connection has the connector's default flags, and
  \<open>FOUND_ROWS\<close> is not one of them.
\<close>

definition client_found_rows :: bool where
  "client_found_rows = False"

definition unread_count :: "user_id \<Rightarrow> notification list \<Rightarrow> nat" where
  "unread_count uid t = length (filter (\<lambda>r. n_user_id r = uid \<and> \<not> n_is_read r) t)"

definition mark_all_read :: "user_id \<Rightarrow> notification list \<Rightarrow> json \<times> notification list" where
  "mark_all_read uid t =
     (let P = (\<lambda>r. n_user_id r = uid \<and> \<not> n_is_read r)
      in (JObj [(''updated'', JInt (int (rowcount client_found_rows P t)))], update_set_read P t))"

text \<open>
  \<open>mark_single_read\<close>: the UPDATE is committed before \<open>rowcount\<close> is looked at, so the table
  that is returned is the updated one also when the function raises.
\<close>

definition mark_single_read :: "int \<Rightarrow> user_id \<Rightarrow> notification list \<Rightarrow> (error + json) \<times> notification list" where
  "mark_single_read notif_id uid t =
     (let P = (\<lambda>r. n_id r = notif_id \<and> n_user_id r = uid);
          t' = update_set_read P t
      in if rowcount client_found_rows P t = 0
         then (Inl (HTTPException 404 ''Notification not found''), t')
         else (Inr (JObj [(''updated'', JInt 1)]), t'))"

section \<open>The write-then-push pattern of installations.py and sales.py\<close>

text \<open>
  A MySQL connection with \<open>autocommit\<close> off, as far as the \<open>notifications\<close> table goes:
  \<^item> \<open>notifications\<close>: the committed rows, the durable store;
  \<^item> \<open>pending\<close>: the rows inserted by the open transaction;
  \<^item> \<open>next_id\<close>: the AUTO\_INCREMENT counter; \<open>clock\<close>: the server's CURRENT\_TIMESTAMP;
  \<^item> \<open>faults\<close>: for each coming statement (\<open>execute\<close> or \<open>commit\<close>), whether the server
    fails it; past the end of the list every statement succeeds.
\<close>

record connection =
  notifications :: "notification list"
  pending :: "notification list"
  next_id :: int
  clock :: string
  faults :: "bool list"

definition next_fails :: "connection \<Rightarrow> bool" where
  "next_fails c = (case faults c of [] \<Rightarrow> False | b # bs \<Rightarrow> b)"

definition statement_done :: "connection \<Rightarrow> connection" where
  "statement_done c = c\<lparr>faults := tl (faults c)\<rparr>"

text \<open>A SELECT: it changes no row; its result set is given to the caller of the model.\<close>

definition execute_select :: "connection \<Rightarrow> error + connection" where
  "execute_select c = (if next_fails c then Inl DatabaseError else Inr (statement_done c))"

text \<open>
  \<open>INSERT INTO notifications (user_id, message, type, data) VALUES (%s,%s,%s,%s)\<close>: the
  table's defaults fill in the id, \<open>is_read = 0\<close> and the timestamp.
\<close>

definition execute_insert ::
  "user_id \<Rightarrow> string \<Rightarrow> string \<Rightarrow> string option \<Rightarrow> connection \<Rightarrow> error + notification \<times> connection" where
  "execute_insert uid msg typ dat c =
     (if next_fails c then Inl DatabaseError
      else (let row = \<lparr>n_id = next_id c, n_user_id = uid, n_message = msg, n_type = typ,
                        n_is_read = False, n_timestamp = clock c, n_data = dat\<rparr>
            in Inr (row, (statement_done c)\<lparr>pending := pending c @ [row],
                                            next_id := next_id c + 1\<rparr>)))"

definition commit :: "connection \<Rightarrow> error + connection" where
  "commit c =
     (if next_fails c then Inl DatabaseError
      else Inr ((statement_done c)\<lparr>notifications := notifications c @ pending c, pending := []\<rparr>))"

definition rollback :: "connection \<Rightarrow> connection" where
  "rollback c = c\<lparr>pending := []\<rparr>"

text \<open>
  What a request handler acts on: its database connection and the process-wide manager. The
  \<open>log\<close> lists, in the order they happen, the inserts that went through, the calls of
  \<open>send_personal_message\<close>, and the commit or rollback that ends the transaction.
\<close>

datatype event =
    Inserted notification
  | Pushed user_id message
  | Committed
  | RolledBack

record world =
  db :: connection
  mgr :: manager
  log :: "event list"

text \<open>
  The body that the three notification loops share: \<open>execute\<close> the INSERT, then
  \<open>await manager.send_personal_message(push, uid)\<close>. An exception of the INSERT leaves the
  loop before the push.
\<close>

definition insert_and_push ::
  "user_id \<Rightarrow> string \<Rightarrow> string \<Rightarrow> string option \<Rightarrow> message \<Rightarrow> world \<Rightarrow> (error + unit) \<times> world" where
  "insert_and_push uid msg typ dat push w =
     (case execute_insert uid msg typ dat (db w) of
        Inl e \<Rightarrow> (Inl e, w)
      | Inr (row, c) \<Rightarrow>
          (let w1 = w\<lparr>db := c, log := log w @ [Inserted row]\<rparr>;
               w2 = w1\<lparr>mgr := send_personal_message push uid (mgr w1),
                        log := log w1 @ [Pushed uid push]\<rparr>
           in (Inr (), w2)))"

text \<open>\<open>str(e)\<close> of the exception that reaches the handler.\<close>

fun str :: "error \<Rightarrow> string" where
  "str WebSocketDisconnect = ''WebSocketDisconnect''"
| "str (HTTPException code detail) = detail"
| "str DatabaseError = ''DatabaseError''"

text \<open>\<open>except Exception as e: conn.rollback(); raise HTTPException(500, str(e))\<close>\<close>

definition rollback_and_raise :: "error \<Rightarrow> world \<Rightarrow> (error + json) \<times> world" where
  "rollback_and_raise e w =
     (Inl (HTTPException 500 (str e)), w\<lparr>db := rollback (db w), log := log w @ [RolledBack]\<rparr>)"

text \<open>\<open>conn.commit()\<close> followed by \<open>return response\<close>.\<close>

definition commit_and_return :: "json \<Rightarrow> world \<Rightarrow> (error + json) \<times> world" where
  "commit_and_return response w =
     (case commit (db w) of
        Inl e \<Rightarrow> rollback_and_raise e w
      | Inr c \<Rightarrow> (Inr response, w\<lparr>db := c, log := log w @ [Committed]\<rparr>))"

subsection \<open>installations.py: create\_full\_installation\<close>

text \<open>The fields of \<open>CompanyPayload\<close> that the notification and the response are built from.\<close>

record company_payload =
  name :: string
  offer_link :: "string option"
  probable_installation_date :: "string option"
  offer_hours :: "int option"
  notes' :: "string option"
  selected_jobs :: "int list"
  job_notes :: "(int \<times> string) list option"

definition opt_str :: "string option \<Rightarrow> json" where
  "opt_str v = (case v of None \<Rightarrow> JNull | Some s \<Rightarrow> JStr s)"

definition opt_int :: "int option \<Rightarrow> json" where
  "opt_int v = (case v of None \<Rightarrow> JNull | Some i \<Rightarrow> JInt i)"

definition job_list :: "company_payload \<Rightarrow> (int \<times> string) list \<Rightarrow> json list" where
  "job_list data job_lookup =
     map (\<lambda>job_id.
            JObj [(''id'', JInt job_id),
                  (''name'', opt_str (map_of job_lookup job_id)),
                  (''notes'', (case job_notes data of
                                 None \<Rightarrow> JNull
                               | Some jn \<Rightarrow> if jn = [] then JNull else opt_str (map_of jn job_id)))])
         (selected_jobs data)"

definition payload_of :: "company_payload \<Rightarrow> int \<Rightarrow> string \<Rightarrow> (int \<times> string) list \<Rightarrow> json" where
  "payload_of data company_id now_str job_lookup =
     JObj [(''company'',
            JObj [(''id'', JInt company_id),
                  (''name'', JStr (name data)),
                  (''offer_link'', opt_str (offer_link data)),
                  (''probable_installation_date'', opt_str (probable_installation_date data)),
                  (''offer_hours'', opt_int (offer_hours data)),
                  (''notes'', opt_str (notes' data)),
                  (''creation_date'', JStr now_str)]),
           (''jobs'', JList (job_list data job_lookup))]"

text \<open>The UTF-8 bytes of the Greek words for "New installation: " that start the message.\<close>

definition new_installation_prefix :: string where
  "new_installation_prefix =
     map char_of [206, 157, 206, 173, 206, 177, 32, 206, 181, 206, 179, 206, 186, 206, 177,
       207, 132, 206, 172, 207, 131, 207, 132, 206, 177, 207, 131, 206, 183, 58, 32 :: nat]"

definition installation_push :: "string \<Rightarrow> json \<Rightarrow> string \<Rightarrow> message" where
  "installation_push msg payload now_str =
     [(''event'', JStr ''new_installation''),
      (''type'', JStr ''new_installation''),
      (''message'', JStr msg),
      (''data'', payload),
      (''timestamp'', JStr now_str)]"

text \<open>\<open>for user in recipients\<close>: each row of the SELECT is \<open>(id, username)\<close>.\<close>

fun notify_recipients ::
  "string \<Rightarrow> json \<Rightarrow> string \<Rightarrow> string \<Rightarrow> (user_id \<times> string) list \<Rightarrow> world \<Rightarrow> (error + unit) \<times> world" where
  "notify_recipients msg payload payload_json now_str [] w = (Inr (), w)"
| "notify_recipients msg payload payload_json now_str (user # rest) w =
     (let uid = fst user
      in case insert_and_push uid msg ''new_installation'' (Some payload_json)
                (installation_push msg payload now_str) w of
           (Inl e, w') \<Rightarrow> (Inl e, w')
         | (Inr u, w') \<Rightarrow> notify_recipients msg payload payload_json now_str rest w')"

definition installation_response :: "company_payload \<Rightarrow> int \<Rightarrow> string \<Rightarrow> json" where
  "installation_response data company_id now_str =
     JObj [(''status'', JStr ''ok''),
           (''company'',
            JObj [(''id'', JInt company_id),
                  (''name'', JStr (name data)),
                  (''offer_link'', opt_str (offer_link data)),
                  (''probable_installation_date'', opt_str (probable_installation_date data)),
                  (''offer_hours'', opt_int (offer_hours data)),
                  (''notes'', opt_str (notes' data)),
                  (''creation_date'', JStr now_str),
                  (''selected_jobs'', JList (map JInt (selected_jobs data)))])]"

text \<open>
  \<open>create_full_installation\<close> from the SELECT of the recipients on. The statements before
  it insert the company and its jobs and are committed; their results come in as
  \<open>company_id\<close>, \<open>now_str\<close> and \<open>job_lookup\<close>, the SELECT's result set as \<open>recipients\<close>, and
  \<open>json.dumps\<close> as \<open>dumps\<close>.
\<close>

definition create_full_installation ::
  "(json \<Rightarrow> string) \<Rightarrow> company_payload \<Rightarrow> int \<Rightarrow> string \<Rightarrow> (int \<times> string) list \<Rightarrow>
   (user_id \<times> string) list \<Rightarrow> world \<Rightarrow> (error + json) \<times> world" where
  "create_full_installation dumps data company_id now_str job_lookup recipients w =
     (let payload = payload_of data company_id now_str job_lookup
      in case execute_select (db w) of
           Inl e \<Rightarrow> rollback_and_raise e w
         | Inr c \<Rightarrow>
             (let msg = new_installation_prefix @ name data;
                  payload_json = dumps payload
              in case notify_recipients msg payload payload_json now_str recipients (w\<lparr>db := c\<rparr>) of
                   (Inl e, w') \<Rightarrow> rollback_and_raise e w'
                 | (Inr u, w') \<Rightarrow>
                     commit_and_return (installation_response data company_id now_str) w'))"

subsection \<open>sales.py: run\_sales\_notifications\<close>

text \<open>A row of the two SELECTs on \<open>sales_leads\<close>.\<close>

record lead =
  lead_id :: int
  owner_user_id :: "int option"
  company_name :: string

text \<open>\<open>not row["owner_user_id"]\<close>: the owner is NULL or 0.\<close>

definition no_owner :: "lead \<Rightarrow> bool" where
  "no_owner row \<longleftrightarrow> (case owner_user_id row of None \<Rightarrow> True | Some uid \<Rightarrow> uid = 0)"

definition sales_push :: "string \<Rightarrow> string \<Rightarrow> lead \<Rightarrow> message" where
  "sales_push event_name msg row =
     [(''event'', JStr event_name),
      (''type'', JStr ''sales''),
      (''message'', JStr msg),
      (''data'', JObj [(''lead_id'', JInt (lead_id row))])]"

text \<open>
  The two loops of \<open>run_sales_notifications\<close> differ in the words that start the message
  and in the name used for the record's type and the push's event: \<open>prefix\<close> and \<open>kind\<close>.
\<close>

fun notify_leads :: "string \<Rightarrow> string \<Rightarrow> lead list \<Rightarrow> world \<Rightarrow> (error + unit) \<times> world" where
  "notify_leads prefix kind [] w = (Inr (), w)"
| "notify_leads prefix kind (row # rest) w =
     (if no_owner row then notify_leads prefix kind rest w
      else (let msg = prefix @ company_name row
            in case insert_and_push (the (owner_user_id row)) msg kind None
                      (sales_push kind msg row) w of
                 (Inl e, w') \<Rightarrow> (Inl e, w')
               | (Inr u, w') \<Rightarrow> notify_leads prefix kind rest w'))"

definition sales_response :: "lead list \<Rightarrow> lead list \<Rightarrow> json" where
  "sales_response due_list stale_list =
     JObj [(''status'', JStr ''ok''),
           (''followup'', JInt (int (length due_list))),
           (''stale'', JInt (int (length stale_list)))]"

text \<open>
  \<open>run_sales_notifications\<close>; \<open>due_list\<close> and \<open>stale_list\<close> are the result sets of its two
  SELECTs.
\<close>

definition run_sales_notifications :: "lead list \<Rightarrow> lead list \<Rightarrow> world \<Rightarrow> (error + json) \<times> world" where
  "run_sales_notifications due_list stale_list w =
     (case execute_select (db w) of
        Inl e \<Rightarrow> rollback_and_raise e w
      | Inr c1 \<Rightarrow>
          (case notify_leads ''Follow-up due today: '' ''sales_followup_due'' due_list (w\<lparr>db := c1\<rparr>) of
             (Inl e, w1) \<Rightarrow> rollback_and_raise e w1
           | (Inr u, w1) \<Rightarrow>
               (case execute_select (db w1) of
                  Inl e \<Rightarrow> rollback_and_raise e w1
                | Inr c2 \<Rightarrow>
                    (case notify_leads ''5+ days since offer: '' ''sales_offer_stale'' stale_list
                            (w1\<lparr>db := c2\<rparr>) of
                       (Inl e, w2) \<Rightarrow> rollback_and_raise e w2
                     | (Inr u, w2) \<Rightarrow> commit_and_return (sales_response due_list stale_list) w2))))"

text \<open>A connection on an empty table, and a world made of it and a manager.\<close>

definition fresh_connection :: "bool list \<Rightarrow> connection" where
  "fresh_connection fs =
     \<lparr>notifications = [], pending = [], next_id = 1, clock = ''2024-05-01 10:00:00'', faults = fs\<rparr>"

definition start :: "bool list \<Rightarrow> manager \<Rightarrow> world" where
  "start fs m = \<lparr>db = fresh_connection fs, mgr = m, log = []\<rparr>"

section \<open>Concrete inputs\<close>

text \<open>User 7 owns record 1, user 8 owns record 2; both records are unread.\<close>

definition two_unread_records :: "notification list" where
  "two_unread_records =
     [\<lparr>n_id = 1, n_user_id = 7, n_message = ''first'', n_type = ''general'',
        n_is_read = False, n_timestamp = ''2024-05-01 10:00:00'', n_data = None\<rparr>,
      \<lparr>n_id = 2, n_user_id = 8, n_message = ''second'', n_type = ''general'',
        n_is_read = False, n_timestamp = ''2024-05-01 10:00:01'', n_data = None\<rparr>]"

text \<open>User 5 is online with one healthy connection, socket 0.\<close>

definition one_tab :: manager where
  "one_tab =
     \<lparr>connections = [(5, [0])],
      sockets = (\<lambda>w. \<lparr>application_state = CONNECTED, transport_ok = True\<rparr>),
      wire = []\<rparr>"

definition due_lead :: lead where
  "due_lead = \<lparr>lead_id = 3, owner_user_id = Some 5, company_name = ''Acme''\<rparr>"

definition acme :: company_payload where
  "acme = \<lparr>name = ''Acme'', offer_link = None, probable_installation_date = None,
     offer_hours = Some 4, notes' = None, selected_jobs = [2], job_notes = None\<rparr>"

text \<open>Two leads due today, owned by users 5 and 6.\<close>

definition two_due_leads :: "lead list" where
  "two_due_leads =
     [\<lparr>lead_id = 3, owner_user_id = Some 5, company_name = ''Acme''\<rparr>,
      \<lparr>lead_id = 4, owner_user_id = Some 6, company_name = ''Bolt''\<rparr>]"

text \<open>What \<open>run_sales_notifications\<close> inserts and pushes for the lead of user 5.\<close>

definition acme_record :: notification where
  "acme_record =
     \<lparr>n_id = 1, n_user_id = 5, n_message = ''Follow-up due today: Acme'',
      n_type = ''sales_followup_due'', n_is_read = False,
      n_timestamp = ''2024-05-01 10:00:00'', n_data = None\<rparr>"

definition acme_push :: message where
  "acme_push =
     [(''event'', JStr ''sales_followup_due''),
      (''type'', JStr ''sales''),
      (''message'', JStr ''Follow-up due today: Acme''),
      (''data'', JObj [(''lead_id'', JInt 3)])]"

text \<open>User 5 is registered with socket 0, whose transport refuses every write.\<close>

definition one_broken_tab :: manager where
  "one_broken_tab =
     \<lparr>connections = [(5, [0])],
      sockets = (\<lambda>w. \<lparr>application_state = CONNECTED, transport_ok = False\<rparr>),
      wire = []\<rparr>"

text \<open>What \<open>run_sales_notifications\<close> inserts and pushes for the lead of user 6.\<close>

definition bolt_record :: notification where
  "bolt_record =
     \<lparr>n_id = 2, n_user_id = 6, n_message = ''Follow-up due today: Bolt'',
      n_type = ''sales_followup_due'', n_is_read = False,
      n_timestamp = ''2024-05-01 10:00:00'', n_data = None\<rparr>"

definition bolt_push :: message where
  "bolt_push =
     [(''event'', JStr ''sales_followup_due''),
      (''type'', JStr ''sales''),
      (''message'', JStr ''Follow-up due today: Bolt''),
      (''data'', JObj [(''lead_id'', JInt 4)])]"

section \<open>Vocabulary for the write-then-push properties\<close>

text \<open>
  What one pass through a notification loop's body works with: the record's user, message,
  type and data, and the push message sent after the INSERT.
\<close>

record target =
  t_uid :: user_id
  t_msg :: string
  t_typ :: string
  t_dat :: "string option"
  t_push :: message

text \<open>
  The statements a request sends to the database, in order, each INSERT with its target.
  The commit that ends the request is not listed: it is the statement after the last one.
\<close>

datatype statement = Select | Insert target

text \<open>
  The target of \<open>create_full_installation\<close> for one recipient: the record's type and the push's
  event and type are all \<open>new_installation\<close>, the record's data is the JSON text of the
  payload that the push carries as data, and the push has the request's \<open>now_str\<close> as
  timestamp.
\<close>

definition installation_target ::
  "string \<Rightarrow> json \<Rightarrow> string \<Rightarrow> string \<Rightarrow> user_id \<times> string \<Rightarrow> target" where
  "installation_target msg payload payload_json now_str user =
     \<lparr>t_uid = fst user, t_msg = msg, t_typ = ''new_installation'', t_dat = Some payload_json,
      t_push = [(''event'', JStr ''new_installation''),
                (''type'', JStr ''new_installation''),
                (''message'', JStr msg),
                (''data'', payload),
                (''timestamp'', JStr now_str)]\<rparr>"

definition installation_script ::
  "(json \<Rightarrow> string) \<Rightarrow> company_payload \<Rightarrow> int \<Rightarrow> string \<Rightarrow> (int \<times> string) list \<Rightarrow>
   (user_id \<times> string) list \<Rightarrow> statement list" where
  "installation_script dumps data company_id now_str job_lookup recipients =
     Select #
     map (\<lambda>user. Insert (installation_target (new_installation_prefix @ name data)
                            (payload_of data company_id now_str job_lookup)
                            (dumps (payload_of data company_id now_str job_lookup)) now_str user))
         recipients"

text \<open>
  The target of \<open>run_sales_notifications\<close> for one lead that has an owner. The record's type
  is the push's event; the push's type is \<open>sales\<close> and its data is the lead's id, while the
  record's data is NULL; the push has no timestamp.
\<close>

definition lead_target :: "string \<Rightarrow> string \<Rightarrow> lead \<Rightarrow> target" where
  "lead_target prefix kind row =
     \<lparr>t_uid = the (owner_user_id row), t_msg = prefix @ company_name row, t_typ = kind,
      t_dat = None,
      t_push = [(''event'', JStr kind),
                (''type'', JStr ''sales''),
                (''message'', JStr (prefix @ company_name row)),
                (''data'', JObj [(''lead_id'', JInt (lead_id row))])]\<rparr>"

definition lead_statements :: "string \<Rightarrow> string \<Rightarrow> lead list \<Rightarrow> statement list" where
  "lead_statements prefix kind rows =
     map (\<lambda>row. Insert (lead_target prefix kind row)) (filter (\<lambda>row. \<not> no_owner row) rows)"

definition sales_script :: "lead list \<Rightarrow> lead list \<Rightarrow> statement list" where
  "sales_script due_list stale_list =
     Select # lead_statements ''Follow-up due today: '' ''sales_followup_due'' due_list @
     Select # lead_statements ''5+ days since offer: '' ''sales_offer_stale'' stale_list"

text \<open>
  \<open>ok_count fs n\<close>: how many of a request's first \<open>n\<close> statements go through before the first
  one that the fault script \<open>fs\<close> fails. All \<open>n\<close> go through when no fault is among the first
  \<open>n\<close> entries.
\<close>

fun ok_count :: "bool list \<Rightarrow> nat \<Rightarrow> nat" where
  "ok_count fs 0 = 0"
| "ok_count [] (Suc n) = Suc n"
| "ok_count (f # fs) (Suc n) = (if f then 0 else Suc (ok_count fs n))"

fun targets_of :: "statement list \<Rightarrow> target list" where
  "targets_of [] = []"
| "targets_of (Select # ss) = targets_of ss"
| "targets_of (Insert t # ss) = t # targets_of ss"

text \<open>The record that the INSERT for a target makes, given the id and the server time.\<close>

definition record_of :: "int \<Rightarrow> string \<Rightarrow> target \<Rightarrow> notification" where
  "record_of i clk t =
     \<lparr>n_id = i, n_user_id = t_uid t, n_message = t_msg t, n_type = t_typ t,
      n_is_read = False, n_timestamp = clk, n_data = t_dat t\<rparr>"

text \<open>
  The records of a list of targets, with consecutive ids from \<open>i\<close>, and the events of
  dispatching them one after the other: for each target the insert of its record, then the
  push to its user.
\<close>

fun rows_for :: "int \<Rightarrow> string \<Rightarrow> target list \<Rightarrow> notification list" where
  "rows_for i clk [] = []"
| "rows_for i clk (t # ts) = record_of i clk t # rows_for (i + 1) clk ts"

fun events_for :: "int \<Rightarrow> string \<Rightarrow> target list \<Rightarrow> event list" where
  "events_for i clk [] = []"
| "events_for i clk (t # ts) =
     Inserted (record_of i clk t) # Pushed (t_uid t) (t_push t) # events_for (i + 1) clk ts"

text \<open>The manager after the pushes of a list of targets, one after the other.\<close>

definition push_all :: "target list \<Rightarrow> manager \<Rightarrow> manager" where
  "push_all ts m = fold (\<lambda>t. send_personal_message (t_push t) (t_uid t)) ts m"


text \<open>
  The outcome of a request with statements \<open>S\<close> and response \<open>R\<close> that starts in world \<open>w\<close>,
  as far as order and reporting go. The request fails when the fault script fails one of
  its statements or its commit. The targets dispatched are those of the statements that
  went through before that: for each of them, in order, its record is inserted and then
  its push is made, and nothing is pushed for any other target. A request that fails
  raises HTTP 500 and ends with a rollback; one that does not fail returns \<open>R\<close> and ends
  with the commit.
\<close>

definition dispatch_outcome ::
  "statement list \<Rightarrow> json \<Rightarrow> world \<Rightarrow> (error + json) \<times> world \<Rightarrow> bool" where
  "dispatch_outcome S R w out =
     (case out of
        (r, w') \<Rightarrow>
          (let fs = faults (db w);
               failed = (True \<in> set (take (Suc (length S)) fs));
               ts = targets_of (take (ok_count fs (Suc (length S))) S)
           in r = (if failed then Inl (HTTPException 500 ''DatabaseError'') else Inr R) \<and>
              log w' = log w @ events_for (next_id (db w)) (clock (db w)) ts @
                         [if failed then RolledBack else Committed] \<and>
              mgr w' = push_all ts (mgr w) \<and>
              (failed \<or> ts = targets_of S)))"


text \<open>
  The statements of a request, run one after the other until one raises: the part of the
  two handlers between \<open>try\<close> and \<open>conn.commit()\<close>.
\<close>

definition step :: "statement \<Rightarrow> world \<Rightarrow> (error + unit) \<times> world" where
  "step s w =
     (case s of
        Select \<Rightarrow>
          (case execute_select (db w) of
             Inl e \<Rightarrow> (Inl e, w)
           | Inr c \<Rightarrow> (Inr (), w\<lparr>db := c\<rparr>))
      | Insert t \<Rightarrow> insert_and_push (t_uid t) (t_msg t) (t_typ t) (t_dat t) (t_push t) w)"

fun exec :: "statement list \<Rightarrow> world \<Rightarrow> (error + unit) \<times> world" where
  "exec [] w = (Inr (), w)"
| "exec (s # ss) w =
     (case step s w of
        (Inl e, w') \<Rightarrow> (Inl e, w')
      | (Inr u, w') \<Rightarrow> exec ss w')"

definition finish :: "json \<Rightarrow> (error + unit) \<times> world \<Rightarrow> (error + json) \<times> world" where
  "finish R out =
     (case out of
        (Inl e, w') \<Rightarrow> rollback_and_raise e w'
      | (Inr u, w') \<Rightarrow> commit_and_return R w')"

section \<open>The registry invariant\<close>

lemma connections_safe_close [simp]: "connections (safe_close w m) = connections m"
  by (simp add: safe_close_def close_def)

lemma connections_fold_safe_close [simp]: "connections (fold safe_close ws m) = connections m"
  by (induction ws arbitrary: m) simp_all

lemma wire_safe_close [simp]: "wire (safe_close w m) = wire m"
  by (simp add: safe_close_def close_def)

lemma wire_fold_safe_close [simp]: "wire (fold safe_close ws m) = wire m"
  by (induction ws arbitrary: m) simp_all

lemma send_loop_frame:
  "send_loop msg socks dead m = (dead', m') \<Longrightarrow>
     connections m' = connections m \<and> sockets m' = sockets m"
proof (induction socks arbitrary: dead m)
  case Nil
  then show ?case by simp
next
  case (Cons w rest)
  then show ?case
    by (auto simp: send_json_def is_open_def split: if_splits)
qed

lemma set_update_subset: "set (AList.update k v al) \<subseteq> insert (k, v) (set al)"
  by (induction al) auto

lemma set_delete_subset: "set (AList.delete k al) \<subseteq> set al"
  by (auto simp: AList.delete_eq)

lemma no_empty_update:
  "no_empty_entries m \<Longrightarrow> s \<noteq> [] \<Longrightarrow>
   no_empty_entries (m\<lparr>connections := AList.update uid s (connections m)\<rparr>)"
  using set_update_subset [of uid s "connections m"]
  by (auto simp: no_empty_entries_def)

lemma no_empty_delete:
  "no_empty_entries m \<Longrightarrow>
   no_empty_entries (m\<lparr>connections := AList.delete uid (connections m)\<rparr>)"
  using set_delete_subset [of uid "connections m"]
  by (auto simp: no_empty_entries_def)

lemma no_empty_cong:
  "connections m' = connections m \<Longrightarrow> no_empty_entries m' = no_empty_entries m"
  by (simp add: no_empty_entries_def)

lemma no_empty_connect: "no_empty_entries m \<Longrightarrow> no_empty_entries (connect uid w m)"
proof -
  assume a: "no_empty_entries m"
  have ne: "set_add w s \<noteq> []" for s by (auto simp: set_add_def)
  have b: "no_empty_entries (accept w m)"
    using a by (simp add: no_empty_entries_def accept_def)
  show ?thesis
    unfolding connect_def Let_def by (rule no_empty_update [OF b ne])
qed

lemma no_empty_disconnect: "no_empty_entries m \<Longrightarrow> no_empty_entries (disconnect uid m)"
  unfolding disconnect_def Let_def
  by (simp add: no_empty_cong [OF connections_fold_safe_close] no_empty_delete)

lemma no_empty_disconnect_socket:
  "no_empty_entries m \<Longrightarrow> no_empty_entries (disconnect_socket uid w m)"
  unfolding disconnect_socket_def Let_def
  by (simp add: no_empty_cong [OF connections_safe_close] no_empty_delete no_empty_update
           split: option.splits)

lemma no_empty_prune: "no_empty_entries m \<Longrightarrow> no_empty_entries (prune uid dead m)"
  unfolding prune_def Let_def
  by (simp add: no_empty_delete no_empty_update split: option.splits)

lemma no_empty_prune_and_close:
  "no_empty_entries m \<Longrightarrow> no_empty_entries (prune_and_close uid dead m)"
  unfolding prune_and_close_def
  by (simp add: no_empty_cong [OF connections_fold_safe_close] no_empty_prune)

lemma no_empty_send_loop:
  "no_empty_entries m \<Longrightarrow> send_loop msg socks dead m = (dead', m') \<Longrightarrow> no_empty_entries m'"
  using send_loop_frame [of msg socks dead m dead' m'] by (simp add: no_empty_entries_def)

lemma no_empty_send_personal_message:
  "no_empty_entries m \<Longrightarrow> no_empty_entries (send_personal_message msg uid m)"
  unfolding send_personal_message_def Let_def
  by (auto split: prod.splits intro: no_empty_prune_and_close no_empty_send_loop)

lemma no_empty_broadcast_loop:
  "no_empty_entries m \<Longrightarrow> no_empty_entries (broadcast_loop msg snap m)"
proof (induction snap arbitrary: m)
  case Nil
  then show ?case by simp
next
  case (Cons p rest)
  obtain uid socks where p: "p = (uid, socks)" by (cases p)
  obtain dead m1 where sl: "send_loop msg socks [] m = (dead, m1)"
    by (cases "send_loop msg socks [] m")
  have "no_empty_entries (prune_and_close uid dead m1)"
    using Cons.prems sl by (blast intro: no_empty_prune_and_close no_empty_send_loop)
  then show ?case using Cons.IH p sl by simp
qed

lemma no_empty_apply_operation:
  "no_empty_entries m \<Longrightarrow> no_empty_entries (apply_operation op m)"
  by (cases op)
     (simp_all add: no_empty_connect no_empty_disconnect no_empty_disconnect_socket
        no_empty_send_personal_message no_empty_broadcast_loop broadcast_def)

text \<open>
  Claim C7. Whatever sequence of Register (\<open>connect\<close>), Unregister (\<open>disconnect_socket\<close>),
  UnregisterAll (\<open>disconnect\<close>), SendToUser (\<open>send_personal_message\<close>) and Broadcast
  operations runs on a registry without empty entries, the registry that results has no user
  mapped to an empty connection set.
\<close>

theorem registry_never_holds_empty_set:
  "no_empty_entries m \<Longrightarrow> no_empty_entries (fold apply_operation ops m)"
  by (induction ops arbitrary: m) (simp_all add: no_empty_apply_operation)

theorem registry_never_holds_empty_set_witness:
  "no_empty_entries empty_manager \<and>
   no_empty_entries (fold apply_operation
      [Register 1 0, Register 1 1, Unregister 1 0, SendToUser 1 [], Unregister 1 1]
      empty_manager)"
  using registry_never_holds_empty_set [of empty_manager
      "[Register 1 0, Register 1 1, Unregister 1 0, SendToUser 1 [], Unregister 1 1]"]
  by (simp add: no_empty_entries_def empty_manager_def)

section \<open>Fan-out: what is delivered and what is pruned\<close>

lemma healthy_cong:
  "sockets m' = sockets m \<Longrightarrow> healthy m' w = healthy m w"
  by (simp add: healthy_def is_open_def)

lemma send_loop_eq:
  "send_loop msg socks dead m =
     (dead @ filter (\<lambda>w. \<not> healthy m w) socks,
      m\<lparr>wire := wire m @ map (\<lambda>w. (w, msg)) (filter (healthy m) socks)\<rparr>)"
proof (induction socks arbitrary: dead m)
  case Nil
  show ?case by simp
next
  case (Cons w rest)
  have h: "healthy (m\<lparr>wire := x\<rparr>) = healthy m" for x
    by (rule ext) (simp add: healthy_def is_open_def)
  show ?case
    by (auto simp: Cons.IH h send_json_def healthy_def)
qed

lemma fold_set_discard: "fold set_discard dead s = filter (\<lambda>w. w \<notin> set dead) s"
proof (induction dead arbitrary: s)
  case Nil
  show ?case by simp
next
  case (Cons d ds)
  have "set_discard d s = filter (\<lambda>w. w \<noteq> d) s"
    unfolding set_discard_def by (induction s) auto
  then show ?case by (auto simp: Cons.IH intro: filter_cong)
qed

lemma sockets_fold_safe_close:
  "sockets (fold safe_close ds m) w =
     (if w \<in> set ds \<and> application_state (sockets m w) = CONNECTED
      then (sockets m w)\<lparr>application_state := DISCONNECTED\<rparr> else sockets m w)"
proof (induction ds arbitrary: m)
  case Nil
  show ?case by simp
next
  case (Cons d ds)
  show ?case by (simp add: Cons.IH) (auto simp: safe_close_def close_def)
qed

lemma is_open_fold_safe_close:
  "is_open (fold safe_close ds m) w \<longleftrightarrow> is_open m w \<and> w \<notin> set ds"
  by (auto simp: is_open_def sockets_fold_safe_close)

lemma transport_ok_fold_safe_close:
  "transport_ok (sockets (fold safe_close ds m) w) = transport_ok (sockets m w)"
  by (simp add: sockets_fold_safe_close)

lemma sockets_prune [simp]: "sockets (prune uid dead m) = sockets m"
  by (simp add: prune_def Let_def split: option.splits)

lemma wire_prune [simp]: "wire (prune uid dead m) = wire m"
  by (simp add: prune_def Let_def split: option.splits)

lemma wire_prune_and_close [simp]: "wire (prune_and_close uid dead m) = wire m"
  by (simp add: prune_and_close_def)

lemma is_open_prune_and_close:
  "is_open (prune_and_close uid dead m) w \<longleftrightarrow> is_open m w \<and> w \<notin> set dead"
  by (simp add: prune_and_close_def is_open_fold_safe_close) (simp add: is_open_def)

lemma transport_ok_prune_and_close:
  "transport_ok (sockets (prune_and_close uid dead m) w) = transport_ok (sockets m w)"
  by (simp add: prune_and_close_def transport_ok_fold_safe_close)

lemma healthy_prune_and_close:
  "healthy (prune_and_close uid dead m) w \<longleftrightarrow> healthy m w \<and> w \<notin> set dead"
  by (auto simp: healthy_def is_open_prune_and_close transport_ok_prune_and_close)

lemma connections_prune_and_close:
  "connections (prune_and_close uid dead m) = (if dead \<noteq> [] then connections (prune uid dead m) else connections m)"
  by (simp add: prune_and_close_def)

lemma update_middle:
  "uid \<notin> fst ` set pre \<Longrightarrow> AList.update uid v (pre @ (uid, s) # rest) = pre @ (uid, v) # rest"
  by (induction pre) auto

lemma delete_middle:
  "uid \<notin> fst ` set pre \<Longrightarrow> uid \<notin> fst ` set rest \<Longrightarrow>
   AList.delete uid (pre @ (uid, s) # rest) = pre @ rest"
  by (induction pre) auto

lemma map_of_middle:
  "uid \<notin> fst ` set pre \<Longrightarrow> map_of (pre @ (uid, s) # rest) uid = Some s"
  by (induction pre) auto

lemma survivors_Cons: "survivors h (p # d) = survivors h [p] @ survivors h d"
  by (simp add: survivors_def)

lemma keys_survivors: "fst ` set (survivors h d) \<subseteq> fst ` set d"
  by (force simp: survivors_def)

lemma user_step_connections:
  assumes c: "connections m = pre @ (uid, socks) # rest"
    and p: "uid \<notin> fst ` set pre" and r: "uid \<notin> fst ` set rest" and ne: "socks \<noteq> []"
  shows "connections (prune_and_close uid (filter (\<lambda>w. \<not> h w) socks) (m\<lparr>wire := W\<rparr>))
           = pre @ survivors h [(uid, socks)] @ rest"
proof (cases "filter (\<lambda>w. \<not> h w) socks = []")
  case True
  then have "filter h socks = socks"
    by (simp add: filter_empty_conv filter_id_conv)
  then show ?thesis
    using True c ne by (simp add: prune_and_close_def survivors_def)
next
  case False
  have s': "fold set_discard (filter (\<lambda>w. \<not> h w) socks) socks = filter h socks"
    by (auto simp: fold_set_discard intro: filter_cong)
  have mo: "map_of (connections m) uid = Some socks"
    by (simp only: c map_of_middle [OF p])
  have pr: "connections (prune uid (filter (\<lambda>w. \<not> h w) socks) (m\<lparr>wire := W\<rparr>)) =
              (if filter h socks = [] then AList.delete uid (connections m)
               else AList.update uid (filter h socks) (connections m))"
    using mo ne by (simp add: prune_def Let_def s')
  have up: "AList.update uid (filter h socks) (connections m) = pre @ (uid, filter h socks) # rest"
    by (simp only: c update_middle [OF p])
  have de: "AList.delete uid (connections m) = pre @ rest"
    by (simp only: c delete_middle [OF p r])
  show ?thesis
    using False by (simp add: connections_prune_and_close pr up de survivors_def)
qed

lemma broadcast_loop_eq:
  "connections m = pre @ snap \<Longrightarrow> distinct (map fst (pre @ snap)) \<Longrightarrow>
   (\<forall>(uid, s) \<in> set snap. s \<noteq> []) \<Longrightarrow>
     connections (broadcast_loop msg snap m) = pre @ survivors (healthy m) snap \<and>
     wire (broadcast_loop msg snap m) = wire m @ deliveries (healthy m) msg snap \<and>
     (\<forall>w. transport_ok (sockets (broadcast_loop msg snap m) w) = transport_ok (sockets m w)) \<and>
     (\<forall>w. is_open (broadcast_loop msg snap m) w \<longleftrightarrow>
            is_open m w \<and> \<not> (\<exists>(uid, s) \<in> set snap. w \<in> set s \<and> \<not> healthy m w))"
proof (induction snap arbitrary: m pre)
  case Nil
  then show ?case by (simp add: survivors_def deliveries_def)
next
  case (Cons p rest)
  obtain uid socks where p: "p = (uid, socks)" by (cases p)
  define W where "W = wire m @ map (\<lambda>w. (w, msg)) (filter (healthy m) socks)"
  define m2 where
    "m2 = prune_and_close uid (filter (\<lambda>w. \<not> healthy m w) socks) (m\<lparr>wire := W\<rparr>)"
  have step: "broadcast_loop msg (p # rest) m = broadcast_loop msg rest m2"
    by (simp add: p send_loop_eq m2_def W_def)
  have k1: "uid \<notin> fst ` set pre" and k2: "uid \<notin> fst ` set rest" and ne: "socks \<noteq> []"
    using Cons.prems p by auto
  have c2: "connections m2 = (pre @ survivors (healthy m) [(uid, socks)]) @ rest"
    unfolding m2_def using user_step_connections [OF _ k1 k2 ne] Cons.prems(1) p by simp
  have h2: "healthy m2 = healthy m"
  proof (rule ext)
    fix w
    have "healthy (m\<lparr>wire := W\<rparr>) w = healthy m w"
      by (simp add: healthy_def is_open_def)
    then show "healthy m2 w = healthy m w"
      unfolding m2_def by (auto simp: healthy_prune_and_close)
  qed
  have d2: "distinct (map fst ((pre @ survivors (healthy m) [(uid, socks)]) @ rest))"
    using Cons.prems(2) p keys_survivors [of "healthy m" "[(uid, socks)]"]
    by (auto simp: survivors_def)
  have n2: "\<forall>(uid, s) \<in> set rest. s \<noteq> []"
    using Cons.prems(3) by simp
  note IH = Cons.IH [OF c2 d2 n2, unfolded h2]
  have w2: "wire m2 = W" by (simp add: m2_def)
  have t2: "transport_ok (sockets m2 w) = transport_ok (sockets m w)" for w
    by (simp add: m2_def transport_ok_prune_and_close)
  have o2: "is_open m2 w \<longleftrightarrow> is_open m w \<and> \<not> (w \<in> set socks \<and> \<not> healthy m w)" for w
    by (simp add: m2_def is_open_prune_and_close) (simp add: is_open_def)
  show ?case
    unfolding step
    using IH
    by (simp add: p w2 W_def t2 o2) (auto simp: deliveries_def survivors_def)
qed

lemma send_personal_message_eq:
  "send_personal_message msg uid m =
     (let socks = get_or_empty (connections m) uid
      in if socks = [] then m
         else prune_and_close uid (filter (\<lambda>w. \<not> healthy m w) socks)
                (m\<lparr>wire := wire m @ map (\<lambda>w. (w, msg)) (filter (healthy m) socks)\<rparr>))"
  by (simp add: send_personal_message_def send_loop_eq Let_def)



lemma get_or_empty_prune:
  "get_or_empty (connections (prune uid (filter (\<lambda>w. \<not> h w) (get_or_empty (connections m) uid)) m)) u =
     (if u = uid then filter h (get_or_empty (connections m) uid) else get_or_empty (connections m) u)"
proof -
  have s': "fold set_discard (filter (\<lambda>w. \<not> h w) s) s = filter h s" for s
    by (auto simp: fold_set_discard intro: filter_cong)
  show ?thesis
    by (auto simp: get_or_empty_def prune_def Let_def s' update_conv' delete_conv'
             split: option.splits)
qed

lemma send_personal_message_registry:
  "get_or_empty (connections (send_personal_message msg uid m)) u =
     (if u = uid then filter (healthy m) (get_or_empty (connections m) uid)
      else get_or_empty (connections m) u)"
proof -
  let ?socks = "get_or_empty (connections m) uid"
  let ?m1 = "m\<lparr>wire := wire m @ map (\<lambda>w. (w, msg)) (filter (healthy m) ?socks)\<rparr>"
  have c1: "connections ?m1 = connections m" by simp
  show ?thesis
  proof (cases "filter (\<lambda>w. \<not> healthy m w) ?socks = []")
    case True
    then have "filter (healthy m) ?socks = ?socks"
      by (simp add: filter_empty_conv filter_id_conv)
    then show ?thesis
      using True by (simp add: send_personal_message_eq Let_def prune_and_close_def)
  next
    case False
    then have ne: "?socks \<noteq> []" by auto
    show ?thesis
      using False ne get_or_empty_prune [of uid "healthy m" ?m1 u]
      by (simp add: send_personal_message_eq Let_def connections_prune_and_close)
  qed
qed






lemma broadcast_eq:
  assumes "registry_wf m"
  shows "connections (broadcast msg m) = survivors (healthy m) (connections m)"
    and "wire (broadcast msg m) = wire m @ deliveries (healthy m) msg (connections m)"
    and "is_open (broadcast msg m) w \<longleftrightarrow>
           is_open m w \<and> \<not> (\<exists>(uid, s) \<in> set (connections m). w \<in> set s \<and> \<not> healthy m w)"
  using assms broadcast_loop_eq [of m "[]" "connections m" msg]
  by (simp_all add: broadcast_def registry_wf_def no_empty_entries_def)













section \<open>The endpoint's read loop\<close>

lemma websocket_endpoint_authenticated:
  "websocket_endpoint websocket (Some uid) frames m = connect uid websocket m"
  by (simp add: websocket_endpoint_def await_def Let_def)

lemma awaited_disconnect_unregisters:
  "get_or_empty (connections (await (disconnect uid) m)) uid = []"
  by (simp add: await_def disconnect_def Let_def get_or_empty_def delete_conv')

text \<open>
  Claim C9 asks that a connection whose read loop raises leaves the registry. The handler
  builds the coroutine of \<open>disconnect\<close> and never awaits it, so the endpoint returns the
  manager as \<open>connect\<close> left it: user 1 connects with socket 0, the client goes away at
  once, and socket 0 is still registered for user 1 and still open.
\<close>

theorem read_loop_error_leaves_connection_registered:
  "connections (websocket_endpoint 0 (Some 1) [] empty_manager) = [(1, [0])] \<and>
   is_open (websocket_endpoint 0 (Some 1) [] empty_manager) 0 \<and>
   user_connection_count (websocket_endpoint 0 (Some 1) [] empty_manager) 1 = 1"
  by (simp add: websocket_endpoint_authenticated connect_def accept_def empty_manager_def
        get_or_empty_def set_add_def is_open_def user_connection_count_def)

section \<open>Marking records as read\<close>

lemma update_set_read_idem:
  "update_set_read P (update_set_read P t) = update_set_read P t"
  by (induction t) (auto simp: update_set_read_def)

lemma rowcount_after_update:
  "rowcount False (\<lambda>r. n_id r = i \<and> n_user_id r = u)
     (update_set_read (\<lambda>r. n_id r = i \<and> n_user_id r = u) t) = 0"
  by (auto simp: update_set_read_def rowcount_def filter_empty_conv)

lemma second_mark_single_read:
  "mark_single_read i u (snd (mark_single_read i u t)) =
     (Inl (HTTPException 404 ''Notification not found''), snd (mark_single_read i u t))"
  by (simp add: mark_single_read_def Let_def client_found_rows_def rowcount_after_update
        update_set_read_idem)

lemma unread_count_second_mark:
  "unread_count u (snd (mark_single_read i u (snd (mark_single_read i u t)))) =
   unread_count u (snd (mark_single_read i u t))"
  by (simp add: second_mark_single_read)

text \<open>
  Claim C8 asks that marking a read record again raises no error. User 7 marks record 1:
  the call returns \<open>{"updated": 1}\<close> and the record is read. User 7 marks record 1 again: the
  table stays as it is, and the call raises 404 "Notification not found", since the UPDATE
  changed no row.
\<close>

theorem mark_single_read_again_raises_404:
  "mark_single_read 1 7 two_unread_records =
     (Inr (JObj [(''updated'', JInt 1)]),
      [(two_unread_records ! 0)\<lparr>n_is_read := True\<rparr>, two_unread_records ! 1]) \<and>
   mark_single_read 1 7 (snd (mark_single_read 1 7 two_unread_records)) =
     (Inl (HTTPException 404 ''Notification not found''),
      snd (mark_single_read 1 7 two_unread_records))"
  by (simp add: second_mark_single_read)
     (simp add: mark_single_read_def Let_def client_found_rows_def rowcount_def
        update_set_read_def two_unread_records_def)

lemma length_update_set_read [simp]: "length (update_set_read P t) = length t"
  by (simp add: update_set_read_def)

lemma nth_update_set_read:
  "i < length t \<Longrightarrow> update_set_read P t ! i = (if P (t ! i) then (t ! i)\<lparr>n_is_read := True\<rparr> else t ! i)"
  by (simp add: update_set_read_def)

lemma update_set_read_nothing:
  "\<forall>r \<in> set t. \<not> P r \<Longrightarrow> update_set_read P t = t"
  by (induction t) (auto simp: update_set_read_def)

lemma rowcount_nothing:
  "\<forall>r \<in> set t. \<not> P r \<Longrightarrow> rowcount f P t = 0"
  by (auto simp: rowcount_def filter_empty_conv)

lemma snd_mark_single_read:
  "snd (mark_single_read i u t) = update_set_read (\<lambda>r. n_id r = i \<and> n_user_id r = u) t"
  by (simp add: mark_single_read_def Let_def)

text \<open>
  Claim C10. \<open>mark_single_read\<close> keeps the table's length and changes no record but the
  caller's own record with the given id; when no record has that id and that owner (the id
  does not exist, or the record belongs to another user), it raises 404 and the table is
  unchanged.
\<close>

theorem mark_single_read_touches_only_the_callers_records:
  "length (snd (mark_single_read notif_id uid t)) = length t \<and>
   (\<forall>i < length t. n_user_id (t ! i) \<noteq> uid \<or> n_id (t ! i) \<noteq> notif_id \<longrightarrow>
        snd (mark_single_read notif_id uid t) ! i = t ! i) \<and>
   ((\<forall>r \<in> set t. n_id r = notif_id \<longrightarrow> n_user_id r \<noteq> uid) \<longrightarrow>
      mark_single_read notif_id uid t = (Inl (HTTPException 404 ''Notification not found''), t))"
proof (intro conjI allI impI)
  show "length (snd (mark_single_read notif_id uid t)) = length t"
    by (simp add: snd_mark_single_read)
next
  fix i
  assume "i < length t" "n_user_id (t ! i) \<noteq> uid \<or> n_id (t ! i) \<noteq> notif_id"
  then show "snd (mark_single_read notif_id uid t) ! i = t ! i"
    by (auto simp: snd_mark_single_read nth_update_set_read)
next
  assume a: "\<forall>r \<in> set t. n_id r = notif_id \<longrightarrow> n_user_id r \<noteq> uid"
  then have n: "\<forall>r \<in> set t. \<not> (n_id r = notif_id \<and> n_user_id r = uid)" by blast
  show "mark_single_read notif_id uid t = (Inl (HTTPException 404 ''Notification not found''), t)"
    using update_set_read_nothing [OF n] rowcount_nothing [OF n]
    by (simp add: mark_single_read_def Let_def)
qed

theorem mark_single_read_touches_only_the_callers_records_witness:
  "mark_single_read 2 7 two_unread_records =
     (Inl (HTTPException 404 ''Notification not found''), two_unread_records) \<and>
   mark_single_read 9 7 two_unread_records =
     (Inl (HTTPException 404 ''Notification not found''), two_unread_records) \<and>
   snd (mark_single_read 1 7 two_unread_records) ! 1 = two_unread_records ! 1"
proof -
  have a: "\<forall>r \<in> set two_unread_records. n_id r = 2 \<longrightarrow> n_user_id r \<noteq> 7"
    by (simp add: two_unread_records_def)
  have b: "\<forall>r \<in> set two_unread_records. n_id r = 9 \<longrightarrow> n_user_id r \<noteq> 7"
    by (simp add: two_unread_records_def)
  have c: "1 < length two_unread_records" "n_user_id (two_unread_records ! 1) \<noteq> 7"
    by (simp_all add: two_unread_records_def)
  show ?thesis
    using mark_single_read_touches_only_the_callers_records [of 2 7 two_unread_records]
          mark_single_read_touches_only_the_callers_records [of 9 7 two_unread_records]
          mark_single_read_touches_only_the_callers_records [of 1 7 two_unread_records]
          a b c
    by blast
qed

section \<open>The shape of a push message\<close>

lemma installation_push_fields:
  "map fst (installation_push msg payload now_str) =
     [''event'', ''type'', ''message'', ''data'', ''timestamp'']"
  by (simp add: installation_push_def)

lemma sales_push_fields:
  "map fst (sales_push kind msg row) = [''event'', ''type'', ''message'', ''data'']"
  by (simp add: sales_push_def)

text \<open>
  Claim C6 asks for the fields event, type, message, data and timestamp in every push.
  The push of \<open>create_full_installation\<close> has the five; the two pushes of
  \<open>run_sales_notifications\<close> have no timestamp. One lead is due, its owner is online with
  one connection: the frame on the wire has four fields.
\<close>

theorem sales_push_has_no_timestamp:
  "wire (mgr (snd (run_sales_notifications [due_lead] [] (start [] one_tab)))) =
     [(0, [(''event'', JStr ''sales_followup_due''),
           (''type'', JStr ''sales''),
           (''message'', JStr ''Follow-up due today: Acme''),
           (''data'', JObj [(''lead_id'', JInt 3)])])]"
  by (simp add: run_sales_notifications_def start_def fresh_connection_def execute_select_def
        next_fails_def statement_done_def due_lead_def no_owner_def insert_and_push_def
        execute_insert_def sales_push_def commit_and_return_def commit_def one_tab_def
        send_personal_message_def get_or_empty_def is_open_def send_json_def
        prune_and_close_def Let_def)

section \<open>The write-then-push pattern: order, records and results\<close>

lemma fst_insert_and_push:
  "fst (insert_and_push uid msg typ dat push w) =
     (case execute_insert uid msg typ dat (db w) of Inl e \<Rightarrow> Inl e | Inr p \<Rightarrow> Inr ())"
  by (simp add: insert_and_push_def Let_def split: sum.splits prod.splits)

lemma db_insert_and_push:
  "db (snd (insert_and_push uid msg typ dat push w)) =
     (case execute_insert uid msg typ dat (db w) of Inl e \<Rightarrow> db w | Inr p \<Rightarrow> snd p)"
  by (simp add: insert_and_push_def Let_def split: sum.splits prod.splits)

lemma insert_and_push_db:
  "db w1 = db w2 \<Longrightarrow>
   fst (insert_and_push uid msg typ dat push w1) = fst (insert_and_push uid msg typ dat push w2) \<and>
   db (snd (insert_and_push uid msg typ dat push w1)) =
   db (snd (insert_and_push uid msg typ dat push w2))"
  by (simp only: fst_insert_and_push db_insert_and_push)

lemma notify_recipients_Cons:
  "notify_recipients msg payload payload_json now_str (user # rest) w =
     (case fst (insert_and_push (fst user) msg ''new_installation'' (Some payload_json)
                  (installation_push msg payload now_str) w) of
        Inl e \<Rightarrow> (Inl e, snd (insert_and_push (fst user) msg ''new_installation''
                  (Some payload_json) (installation_push msg payload now_str) w))
      | Inr u \<Rightarrow> notify_recipients msg payload payload_json now_str rest
          (snd (insert_and_push (fst user) msg ''new_installation'' (Some payload_json)
                  (installation_push msg payload now_str) w)))"
  by (simp add: Let_def split: prod.splits sum.splits)

lemma notify_recipients_db:
  "db w1 = db w2 \<Longrightarrow>
   fst (notify_recipients msg payload payload_json now_str recipients w1) =
   fst (notify_recipients msg payload payload_json now_str recipients w2) \<and>
   db (snd (notify_recipients msg payload payload_json now_str recipients w1)) =
   db (snd (notify_recipients msg payload payload_json now_str recipients w2))"
proof (induction recipients arbitrary: w1 w2)
  case Nil
  then show ?case by simp
next
  case (Cons user rest)
  let ?f = "insert_and_push (fst user) msg ''new_installation'' (Some payload_json)
              (installation_push msg payload now_str)"
  have f: "fst (?f w1) = fst (?f w2)" and d: "db (snd (?f w1)) = db (snd (?f w2))"
    using insert_and_push_db [OF Cons.prems] by blast+
  show ?case
  proof (cases "fst (?f w2)")
    case (Inl e)
    show ?thesis
      unfolding notify_recipients_Cons f Inl by (simp add: d)
  next
    case (Inr u)
    show ?thesis
      unfolding notify_recipients_Cons f Inr using Cons.IH [OF d] by simp
  qed
qed

lemma notify_leads_Cons:
  "notify_leads prefix kind (row # rest) w =
     (if no_owner row then notify_leads prefix kind rest w
      else (case fst (insert_and_push (the (owner_user_id row)) (prefix @ company_name row) kind
                        None (sales_push kind (prefix @ company_name row) row) w) of
              Inl e \<Rightarrow> (Inl e, snd (insert_and_push (the (owner_user_id row))
                        (prefix @ company_name row) kind
                        None (sales_push kind (prefix @ company_name row) row) w))
            | Inr u \<Rightarrow> notify_leads prefix kind rest
                (snd (insert_and_push (the (owner_user_id row)) (prefix @ company_name row) kind
                        None (sales_push kind (prefix @ company_name row) row) w))))"
  by (simp add: Let_def split: prod.splits sum.splits)

lemma notify_leads_db:
  "db w1 = db w2 \<Longrightarrow>
   fst (notify_leads prefix kind rows w1) = fst (notify_leads prefix kind rows w2) \<and>
   db (snd (notify_leads prefix kind rows w1)) = db (snd (notify_leads prefix kind rows w2))"
proof (induction rows arbitrary: w1 w2)
  case Nil
  then show ?case by simp
next
  case (Cons row rest)
  show ?case
  proof (cases "no_owner row")
    case True
    show ?thesis
      unfolding notify_leads_Cons using True Cons.IH [OF Cons.prems] by simp
  next
    case False
    let ?f = "insert_and_push (the (owner_user_id row)) (prefix @ company_name row) kind None
                (sales_push kind (prefix @ company_name row) row)"
    have f: "fst (?f w1) = fst (?f w2)" and d: "db (snd (?f w1)) = db (snd (?f w2))"
      using insert_and_push_db [OF Cons.prems] by blast+
    show ?thesis
    proof (cases "fst (?f w2)")
      case (Inl e)
      show ?thesis
        unfolding notify_leads_Cons f Inl using False by (simp add: d)
    next
      case (Inr u)
      show ?thesis
        unfolding notify_leads_Cons f Inr using False Cons.IH [OF d] by simp
    qed
  qed
qed

lemma rollback_and_raise_db:
  "db w1 = db w2 \<Longrightarrow>
   fst (rollback_and_raise e w1) = fst (rollback_and_raise e w2) \<and>
   db (snd (rollback_and_raise e w1)) = db (snd (rollback_and_raise e w2))"
  by (simp add: rollback_and_raise_def)

lemma fst_commit_and_return:
  "fst (commit_and_return response w) =
     (case commit (db w) of Inl e \<Rightarrow> Inl (HTTPException 500 (str e)) | Inr c \<Rightarrow> Inr response)"
  by (simp add: commit_and_return_def rollback_and_raise_def split: sum.splits)

lemma db_commit_and_return:
  "db (snd (commit_and_return response w)) =
     (case commit (db w) of Inl e \<Rightarrow> rollback (db w) | Inr c \<Rightarrow> c)"
  by (simp add: commit_and_return_def rollback_and_raise_def split: sum.splits)

lemma commit_and_return_db:
  "db w1 = db w2 \<Longrightarrow>
   fst (commit_and_return response w1) = fst (commit_and_return response w2) \<and>
   db (snd (commit_and_return response w1)) = db (snd (commit_and_return response w2))"
  by (simp only: fst_commit_and_return db_commit_and_return)

lemma create_full_installation_unfold:
  "create_full_installation dumps data company_id now_str job_lookup recipients w =
     (case execute_select (db w) of
        Inl e \<Rightarrow> rollback_and_raise e w
      | Inr c \<Rightarrow>
          (case fst (notify_recipients (new_installation_prefix @ name data)
                  (payload_of data company_id now_str job_lookup)
                  (dumps (payload_of data company_id now_str job_lookup)) now_str recipients
                  (w\<lparr>db := c\<rparr>)) of
             Inl e \<Rightarrow> rollback_and_raise e
                (snd (notify_recipients (new_installation_prefix @ name data)
                  (payload_of data company_id now_str job_lookup)
                  (dumps (payload_of data company_id now_str job_lookup)) now_str recipients
                  (w\<lparr>db := c\<rparr>)))
           | Inr u \<Rightarrow> commit_and_return (installation_response data company_id now_str)
                (snd (notify_recipients (new_installation_prefix @ name data)
                  (payload_of data company_id now_str job_lookup)
                  (dumps (payload_of data company_id now_str job_lookup)) now_str recipients
                  (w\<lparr>db := c\<rparr>)))))"
  by (simp add: create_full_installation_def Let_def split: prod.splits sum.splits)

lemma create_full_installation_db:
  assumes a: "db w1 = db w2"
  shows "fst (create_full_installation dumps data company_id now_str job_lookup recipients w1) =
         fst (create_full_installation dumps data company_id now_str job_lookup recipients w2) \<and>
         db (snd (create_full_installation dumps data company_id now_str job_lookup recipients w1)) =
         db (snd (create_full_installation dumps data company_id now_str job_lookup recipients w2))"
proof (cases "execute_select (db w2)")
  case (Inl e)
  show ?thesis
    unfolding create_full_installation_unfold a Inl
    using rollback_and_raise_db [OF a] by simp
next
  case (Inr c)
  let ?l = "notify_recipients (new_installation_prefix @ name data)
      (payload_of data company_id now_str job_lookup)
      (dumps (payload_of data company_id now_str job_lookup)) now_str recipients"
  have "db (w1\<lparr>db := c\<rparr>) = db (w2\<lparr>db := c\<rparr>)" by simp
  from notify_recipients_db [OF this]
  have f: "fst (?l (w1\<lparr>db := c\<rparr>)) = fst (?l (w2\<lparr>db := c\<rparr>))"
    and d: "db (snd (?l (w1\<lparr>db := c\<rparr>))) = db (snd (?l (w2\<lparr>db := c\<rparr>)))"
    by blast+
  show ?thesis
  proof (cases "fst (?l (w2\<lparr>db := c\<rparr>))")
    case (Inl e)
    show ?thesis
      unfolding create_full_installation_unfold a \<open>execute_select (db w2) = Inr c\<close> sum.case f Inl
      using rollback_and_raise_db [OF d] by simp
  next
    case u: (Inr u)
    show ?thesis
      unfolding create_full_installation_unfold a Inr sum.case f u
      using commit_and_return_db [OF d] by simp
  qed
qed

lemma run_sales_notifications_unfold:
  "run_sales_notifications due_list stale_list w =
     (case execute_select (db w) of
        Inl e \<Rightarrow> rollback_and_raise e w
      | Inr c1 \<Rightarrow>
          (case fst ((notify_leads ''Follow-up due today: '' ''sales_followup_due'' due_list) (w\<lparr>db := c1\<rparr>)) of
             Inl e \<Rightarrow> rollback_and_raise e (snd ((notify_leads ''Follow-up due today: '' ''sales_followup_due'' due_list) (w\<lparr>db := c1\<rparr>)))
           | Inr u \<Rightarrow>
               (case execute_select (db (snd ((notify_leads ''Follow-up due today: '' ''sales_followup_due'' due_list) (w\<lparr>db := c1\<rparr>)))) of
                  Inl e \<Rightarrow> rollback_and_raise e (snd ((notify_leads ''Follow-up due today: '' ''sales_followup_due'' due_list) (w\<lparr>db := c1\<rparr>)))
                | Inr c2 \<Rightarrow>
                    (case fst ((notify_leads ''5+ days since offer: '' ''sales_offer_stale'' stale_list) ((snd ((notify_leads ''Follow-up due today: '' ''sales_followup_due'' due_list) (w\<lparr>db := c1\<rparr>)))\<lparr>db := c2\<rparr>)) of
                       Inl e \<Rightarrow> rollback_and_raise e
                         (snd ((notify_leads ''5+ days since offer: '' ''sales_offer_stale'' stale_list) ((snd ((notify_leads ''Follow-up due today: '' ''sales_followup_due'' due_list) (w\<lparr>db := c1\<rparr>)))\<lparr>db := c2\<rparr>)))
                     | Inr u \<Rightarrow> commit_and_return (sales_response due_list stale_list)
                         (snd ((notify_leads ''5+ days since offer: '' ''sales_offer_stale'' stale_list) ((snd ((notify_leads ''Follow-up due today: '' ''sales_followup_due'' due_list) (w\<lparr>db := c1\<rparr>)))\<lparr>db := c2\<rparr>)))))))"
  by (auto simp: run_sales_notifications_def split: prod.splits sum.splits)

lemma run_sales_notifications_db:
  assumes a: "db w1 = db w2"
  shows "fst (run_sales_notifications due_list stale_list w1) =
         fst (run_sales_notifications due_list stale_list w2) \<and>
         db (snd (run_sales_notifications due_list stale_list w1)) =
         db (snd (run_sales_notifications due_list stale_list w2))"
proof (cases "execute_select (db w2)")
  case (Inl e)
  show ?thesis
    unfolding run_sales_notifications_unfold a Inl
    using rollback_and_raise_db [OF a] by simp
next
  case s1: (Inr c1)
  let ?v1 = "snd ((notify_leads ''Follow-up due today: '' ''sales_followup_due'' due_list) (w1\<lparr>db := c1\<rparr>))"
  let ?v2 = "snd ((notify_leads ''Follow-up due today: '' ''sales_followup_due'' due_list) (w2\<lparr>db := c1\<rparr>))"
  have "db (w1\<lparr>db := c1\<rparr>) = db (w2\<lparr>db := c1\<rparr>)" by simp
  from notify_leads_db [OF this]
  have f1: "fst ((notify_leads ''Follow-up due today: '' ''sales_followup_due'' due_list) (w1\<lparr>db := c1\<rparr>)) = fst ((notify_leads ''Follow-up due today: '' ''sales_followup_due'' due_list) (w2\<lparr>db := c1\<rparr>))"
    and d1: "db ?v1 = db ?v2"
    by blast+
  show ?thesis
  proof (cases "fst ((notify_leads ''Follow-up due today: '' ''sales_followup_due'' due_list) (w2\<lparr>db := c1\<rparr>))")
    case (Inl e)
    show ?thesis
      unfolding run_sales_notifications_unfold a s1 sum.case f1 Inl
      using rollback_and_raise_db [OF d1] by simp
  next
    case u1: (Inr u)
    show ?thesis
    proof (cases "execute_select (db ?v2)")
      case (Inl e)
      show ?thesis
        unfolding run_sales_notifications_unfold a s1 sum.case f1 u1 d1 Inl
        using rollback_and_raise_db [OF d1] by simp
    next
      case s2: (Inr c2)
      have "db (?v1\<lparr>db := c2\<rparr>) = db (?v2\<lparr>db := c2\<rparr>)" by simp
      from notify_leads_db [OF this]
      have f2: "fst ((notify_leads ''5+ days since offer: '' ''sales_offer_stale'' stale_list) (?v1\<lparr>db := c2\<rparr>)) = fst ((notify_leads ''5+ days since offer: '' ''sales_offer_stale'' stale_list) (?v2\<lparr>db := c2\<rparr>))"
        and d2: "db (snd ((notify_leads ''5+ days since offer: '' ''sales_offer_stale'' stale_list) (?v1\<lparr>db := c2\<rparr>))) = db (snd ((notify_leads ''5+ days since offer: '' ''sales_offer_stale'' stale_list) (?v2\<lparr>db := c2\<rparr>)))"
        by blast+
      show ?thesis
      proof (cases "fst ((notify_leads ''5+ days since offer: '' ''sales_offer_stale'' stale_list) (?v2\<lparr>db := c2\<rparr>))")
        case (Inl e)
        show ?thesis
          unfolding run_sales_notifications_unfold a s1 sum.case f1 u1 d1 s2 f2 Inl
          using rollback_and_raise_db [OF d2] by simp
      next
        case u2: (Inr u')
        show ?thesis
          unfolding run_sales_notifications_unfold a s1 sum.case f1 u1 d1 s2 f2 u2
          using commit_and_return_db [OF d2] by simp
      qed
    qed
  qed
qed

section \<open>Runs of the two request handlers on concrete inputs\<close>

lemmas sales_eval =
  run_sales_notifications_def start_def fresh_connection_def execute_select_def next_fails_def
  statement_done_def no_owner_def insert_and_push_def execute_insert_def sales_push_def
  commit_and_return_def rollback_and_raise_def commit_def rollback_def
  send_personal_message_def get_or_empty_def is_open_def send_json_def prune_and_close_def
  prune_def safe_close_def close_def set_discard_def sales_response_def Let_def
  two_due_leads_def acme_record_def acme_push_def bolt_record_def bolt_push_def

lemma sales_run_online:
  "run_sales_notifications two_due_leads [] (start [] one_tab) =
     (Inr (JObj [(''status'', JStr ''ok''), (''followup'', JInt 2), (''stale'', JInt 0)]),
      \<lparr>db = \<lparr>notifications = [acme_record, bolt_record], pending = [], next_id = 3,
              clock = ''2024-05-01 10:00:00'', faults = []\<rparr>,
       mgr = one_tab\<lparr>wire := [(0, acme_push)]\<rparr>,
       log = [Inserted acme_record, Pushed 5 acme_push,
              Inserted bolt_record, Pushed 6 bolt_push, Committed]\<rparr>)"
  by (simp add: sales_eval one_tab_def)

lemma sales_run_second_insert_fails:
  "run_sales_notifications two_due_leads [] (start [False, False, True] one_tab) =
     (Inl (HTTPException 500 ''DatabaseError''),
      \<lparr>db = \<lparr>notifications = [], pending = [], next_id = 2,
              clock = ''2024-05-01 10:00:00'', faults = [True]\<rparr>,
       mgr = one_tab\<lparr>wire := [(0, acme_push)]\<rparr>,
       log = [Inserted acme_record, Pushed 5 acme_push, RolledBack]\<rparr>)"
  by (simp add: sales_eval one_tab_def)




section \<open>A request as a script of statements\<close>

lemma ok_count_Nil [simp]: "ok_count [] n = n"
  by (cases n) simp_all

lemma ok_count_le: "ok_count fs n \<le> n"
  by (induction fs n rule: ok_count.induct) simp_all

lemma ok_count_all: "ok_count fs n = n \<longleftrightarrow> True \<notin> set (take n fs)"
  by (induction fs n rule: ok_count.induct) auto

lemma step_Select:
  "step Select w =
     (if next_fails (db w) then (Inl DatabaseError, w)
      else (Inr (), w\<lparr>db := (db w)\<lparr>faults := tl (faults (db w))\<rparr>\<rparr>))"
  by (simp add: step_def execute_select_def statement_done_def)

lemma step_Insert:
  "step (Insert t) w =
     (if next_fails (db w) then (Inl DatabaseError, w)
      else (Inr (),
            w\<lparr>db := (db w)\<lparr>pending := pending (db w) @ [record_of (next_id (db w)) (clock (db w)) t],
                             next_id := next_id (db w) + 1,
                             faults := tl (faults (db w))\<rparr>,
              mgr := send_personal_message (t_push t) (t_uid t) (mgr w),
              log := log w @ [Inserted (record_of (next_id (db w)) (clock (db w)) t),
                              Pushed (t_uid t) (t_push t)]\<rparr>))"
  by (simp add: step_def insert_and_push_def execute_insert_def statement_done_def record_of_def
        Let_def)

lemma exec_closed:
  "exec S w =
     ((if ok_count (faults (db w)) (length S) = length S then Inr () else Inl DatabaseError),
      w\<lparr>db := (db w)\<lparr>pending := pending (db w) @
                          rows_for (next_id (db w)) (clock (db w))
                            (targets_of (take (ok_count (faults (db w)) (length S)) S)),
                       next_id := next_id (db w) +
                          int (length (targets_of (take (ok_count (faults (db w)) (length S)) S))),
                       faults := drop (ok_count (faults (db w)) (length S)) (faults (db w))\<rparr>,
        mgr := push_all (targets_of (take (ok_count (faults (db w)) (length S)) S)) (mgr w),
        log := log w @ events_for (next_id (db w)) (clock (db w))
                         (targets_of (take (ok_count (faults (db w)) (length S)) S))\<rparr>)"
proof (induction S arbitrary: w)
  case Nil
  show ?case by (simp add: push_all_def)
next
  case (Cons s ss)
  show ?case
  proof (cases "faults (db w)")
    case Nil
    then have nf: "\<not> next_fails (db w)" by (simp add: next_fails_def)
    show ?thesis
    proof (cases s)
      case Select
      show ?thesis
        using Nil nf by (simp add: Select step_Select Cons.IH push_all_def)
    next
      case (Insert t)
      show ?thesis
        using Nil nf by (simp add: Insert step_Insert Cons.IH push_all_def)
    qed
  next
    case (Cons f fs)
    show ?thesis
    proof (cases f)
      case True
      then have nf: "next_fails (db w)" using Cons by (simp add: next_fails_def)
      show ?thesis
        using Cons True nf by (cases s) (simp_all add: step_Select step_Insert push_all_def)
    next
      case False
      then have nf: "\<not> next_fails (db w)" using Cons by (simp add: next_fails_def)
      show ?thesis
      proof (cases s)
        case Select
        show ?thesis
          using Cons False nf by (simp add: Select step_Select Cons.IH push_all_def)
      next
        case (Insert t)
        show ?thesis
          using Cons False nf by (simp add: Insert step_Insert Cons.IH push_all_def)
      qed
    qed
  qed
qed

lemma exec_append:
  "exec (xs @ ys) w =
     (case exec xs w of (Inl e, w') \<Rightarrow> (Inl e, w') | (Inr u, w') \<Rightarrow> exec ys w')"
proof (induction xs arbitrary: w)
  case Nil
  show ?case by simp
next
  case (Cons s ss)
  show ?case
    by (cases "step s w") (simp add: Cons.IH split: sum.splits)
qed

lemma notify_recipients_exec:
  "notify_recipients msg payload payload_json now_str recipients w =
     exec (map (\<lambda>user. Insert (installation_target msg payload payload_json now_str user))
             recipients) w"
proof (induction recipients arbitrary: w)
  case Nil
  show ?case by simp
next
  case (Cons user rest)
  show ?case
    by (simp add: Cons.IH step_def installation_target_def installation_push_def Let_def
          split: prod.splits sum.splits)
qed

lemma notify_leads_exec:
  "notify_leads prefix kind rows w = exec (lead_statements prefix kind rows) w"
proof (induction rows arbitrary: w)
  case Nil
  show ?case by (simp add: lead_statements_def)
next
  case (Cons row rest)
  have c: "lead_statements prefix kind (row # rest) =
      (if no_owner row then lead_statements prefix kind rest
       else Insert (lead_target prefix kind row) # lead_statements prefix kind rest)"
    by (simp add: lead_statements_def)
  show ?case
    by (simp add: c Cons.IH step_def lead_target_def sales_push_def Let_def
          split: prod.splits sum.splits)
qed

lemma exec_Select_Cons:
  "exec (Select # ss) w =
     (case execute_select (db w) of
        Inl e \<Rightarrow> (Inl e, w)
      | Inr c \<Rightarrow> exec ss (w\<lparr>db := c\<rparr>))"
  by (simp add: step_def split: sum.splits)

lemma finish_Inl: "finish R (Inl e, w) = rollback_and_raise e w"
  by (simp add: finish_def)

lemma create_full_installation_exec:
  "create_full_installation dumps data company_id now_str job_lookup recipients w =
     finish (installation_response data company_id now_str)
       (exec (installation_script dumps data company_id now_str job_lookup recipients) w)"
proof (cases "execute_select (db w)")
  case (Inl e)
  show ?thesis
    unfolding installation_script_def exec_Select_Cons Inl
    by (simp add: create_full_installation_def Inl finish_Inl)
next
  case (Inr c)
  show ?thesis
    unfolding installation_script_def exec_Select_Cons Inr
    by (simp add: create_full_installation_def Inr notify_recipients_exec finish_def Let_def)
qed

lemma run_sales_notifications_exec:
  "run_sales_notifications due_list stale_list w =
     finish (sales_response due_list stale_list) (exec (sales_script due_list stale_list) w)"
proof (cases "execute_select (db w)")
  case (Inl e)
  show ?thesis
    unfolding sales_script_def exec_Select_Cons Inl
    by (simp add: run_sales_notifications_def Inl finish_Inl)
next
  case s1: (Inr c1)
  let ?L1 = "lead_statements ''Follow-up due today: '' ''sales_followup_due'' due_list"
  let ?L2 = "lead_statements ''5+ days since offer: '' ''sales_offer_stale'' stale_list"
  obtain r1 w1 where e1: "exec ?L1 (w\<lparr>db := c1\<rparr>) = (r1, w1)"
    by (cases "exec ?L1 (w\<lparr>db := c1\<rparr>)")
  have lhs: "run_sales_notifications due_list stale_list w =
      (case r1 of
         Inl e \<Rightarrow> rollback_and_raise e w1
       | Inr u \<Rightarrow>
           (case execute_select (db w1) of
              Inl e \<Rightarrow> rollback_and_raise e w1
            | Inr c2 \<Rightarrow> finish (sales_response due_list stale_list) (exec ?L2 (w1\<lparr>db := c2\<rparr>))))"
    by (simp add: run_sales_notifications_def s1 notify_leads_exec e1 finish_def
          split: sum.splits)
  have rhs: "exec (sales_script due_list stale_list) w =
      (case r1 of
         Inl e \<Rightarrow> (Inl e, w1)
       | Inr u \<Rightarrow>
           (case execute_select (db w1) of
              Inl e \<Rightarrow> (Inl e, w1)
            | Inr c2 \<Rightarrow> exec ?L2 (w1\<lparr>db := c2\<rparr>)))"
    unfolding sales_script_def exec_Select_Cons s1 sum.case exec_append e1
    by (simp add: exec_Select_Cons split: sum.splits)
  show ?thesis
    unfolding lhs rhs by (simp add: finish_Inl split: sum.splits)
qed

lemma ok_count_Suc:
  "ok_count fs (Suc n) =
     (if ok_count fs n = n
      then (if (case drop n fs of [] \<Rightarrow> False | b # bs \<Rightarrow> b) then n else Suc n)
      else ok_count fs n)"
proof (induction fs n rule: ok_count.induct)
  case (1 fs)
  show ?case by (cases fs) simp_all
next
  case (2 n)
  show ?case by simp
next
  case (3 f fs n)
  then show ?case by (cases f) simp_all
qed



lemma failed_iff: "True \<in> set (take n fs) \<longleftrightarrow> ok_count fs n \<noteq> n"
  by (simp add: ok_count_all)

lemma finish_exec_closed:
  "finish R (exec S w) =
     (let fs = faults (db w);
          failed = (True \<in> set (take (Suc (length S)) fs));
          j = ok_count fs (Suc (length S));
          ts = targets_of (take j S);
          rows = rows_for (next_id (db w)) (clock (db w)) ts
      in ((if failed then Inl (HTTPException 500 ''DatabaseError'') else Inr R),
          w\<lparr>db := (db w)\<lparr>notifications :=
                              (if failed then notifications (db w)
                               else notifications (db w) @ pending (db w) @ rows),
                            pending := [],
                            next_id := next_id (db w) + int (length ts),
                            faults := drop j fs\<rparr>,
            mgr := push_all ts (mgr w),
            log := log w @ events_for (next_id (db w)) (clock (db w)) ts @
                     [if failed then RolledBack else Committed]\<rparr>))"
proof -
  let ?fs = "faults (db w)"
  let ?n = "length S"
  let ?k = "ok_count ?fs ?n"
  show ?thesis
  proof (cases "?k = ?n")
    case False
    then have j: "ok_count ?fs (Suc ?n) = ?k" by (simp add: ok_count_Suc)
    have f: "True \<in> set (take (Suc ?n) ?fs)"
      using j ok_count_le [of ?fs ?n] by (simp add: failed_iff)
    show ?thesis
      using False f
      by (simp add: exec_closed finish_def rollback_and_raise_def rollback_def Let_def j)
  next
    case True
    show ?thesis
    proof (cases "case drop ?n ?fs of [] \<Rightarrow> False | b # bs \<Rightarrow> b")
      case fail: True
      then have j: "ok_count ?fs (Suc ?n) = ?n"
        using True by (simp add: ok_count_Suc)
      have f: "True \<in> set (take (Suc ?n) ?fs)"
        using j by (simp add: failed_iff)
      show ?thesis
        using True f fail
        by (simp add: exec_closed finish_def commit_and_return_def commit_def next_fails_def
              rollback_and_raise_def rollback_def Let_def j)
    next
      case ok: False
      then have j: "ok_count ?fs (Suc ?n) = Suc ?n"
        using True by (simp add: ok_count_Suc)
      have f: "True \<notin> set (take (Suc ?n) ?fs)"
        using j by (simp add: failed_iff)
      have d: "tl (drop ?n ?fs) = drop (Suc ?n) ?fs"
        by (simp add: drop_Suc tl_drop)
      show ?thesis
        using True f ok
        by (simp add: exec_closed finish_def commit_and_return_def commit_def next_fails_def
              statement_done_def Let_def j d)
    qed
  qed
qed

section \<open>The claims about the write-then-push pattern\<close>

lemma targets_of_map_Insert [simp]: "targets_of (map (\<lambda>x. Insert (f x)) xs) = map f xs"
  by (induction xs) simp_all

lemma targets_of_append [simp]: "targets_of (xs @ ys) = targets_of xs @ targets_of ys"
  by (induction xs rule: targets_of.induct) simp_all

lemma targets_of_installation_script:
  "targets_of (installation_script dumps data company_id now_str job_lookup recipients) =
     map (installation_target (new_installation_prefix @ name data)
            (payload_of data company_id now_str job_lookup)
            (dumps (payload_of data company_id now_str job_lookup)) now_str) recipients"
  by (simp add: installation_script_def)

lemma targets_of_sales_script:
  "targets_of (sales_script due_list stale_list) =
     map (lead_target ''Follow-up due today: '' ''sales_followup_due'')
       (filter (\<lambda>row. \<not> no_owner row) due_list) @
     map (lead_target ''5+ days since offer: '' ''sales_offer_stale'')
       (filter (\<lambda>row. \<not> no_owner row) stale_list)"
  by (simp add: sales_script_def lead_statements_def)

lemma dispatch_outcome_finish: "dispatch_outcome S R w (finish R (exec S w))"
proof (cases "True \<in> set (take (Suc (length S)) (faults (db w)))")
  case True
  then show ?thesis
    by (simp add: finish_exec_closed dispatch_outcome_def Let_def)
next
  case False
  then have "ok_count (faults (db w)) (Suc (length S)) = Suc (length S)"
    by (simp add: ok_count_all)
  then show ?thesis
    using False by (simp add: finish_exec_closed dispatch_outcome_def Let_def)
qed


text \<open>
  Claim C1, as the code has it. \<open>create_full_installation\<close> dispatches to the recipients in
  their order, \<open>run_sales_notifications\<close> to the owners of the due leads and then of the stale
  leads. For each target the record is inserted, in the open transaction, right before the
  push to that target, so pushes to earlier targets come before the inserts for later ones,
  and the commit comes after all pushes. When a statement or the commit fails, the targets
  dispatched are exactly those whose INSERT went through before the failure: nothing is
  pushed after it, the request raises HTTP 500 and the transaction is rolled back. When
  nothing fails, every target is dispatched and the request returns its response.
\<close>

theorem each_insert_precedes_its_push:
  "dispatch_outcome
     (installation_script dumps data company_id now_str job_lookup recipients)
     (installation_response data company_id now_str) w
     (create_full_installation dumps data company_id now_str job_lookup recipients w) \<and>
   targets_of (installation_script dumps data company_id now_str job_lookup recipients) =
     map (installation_target (new_installation_prefix @ name data)
            (payload_of data company_id now_str job_lookup)
            (dumps (payload_of data company_id now_str job_lookup)) now_str) recipients \<and>
   dispatch_outcome (sales_script due_list stale_list) (sales_response due_list stale_list) w
     (run_sales_notifications due_list stale_list w) \<and>
   targets_of (sales_script due_list stale_list) =
     map (lead_target ''Follow-up due today: '' ''sales_followup_due'')
       (filter (\<lambda>row. \<not> no_owner row) due_list) @
     map (lead_target ''5+ days since offer: '' ''sales_offer_stale'')
       (filter (\<lambda>row. \<not> no_owner row) stale_list)"
  by (simp only: create_full_installation_exec run_sales_notifications_exec
        dispatch_outcome_finish targets_of_installation_script targets_of_sales_script simp_thms)

theorem each_insert_precedes_its_push_witness:
  "ok_count [False, False, True] (Suc (length (sales_script two_due_leads []))) = 2 \<and>
   targets_of (take 2 (sales_script two_due_leads [])) =
     [lead_target ''Follow-up due today: '' ''sales_followup_due'' (two_due_leads ! 0)] \<and>
   run_sales_notifications two_due_leads [] (start [False, False, True] one_tab) =
     (Inl (HTTPException 500 ''DatabaseError''),
      \<lparr>db = \<lparr>notifications = [], pending = [], next_id = 2,
              clock = ''2024-05-01 10:00:00'', faults = [True]\<rparr>,
       mgr = one_tab\<lparr>wire := [(0, acme_push)]\<rparr>,
       log = [Inserted acme_record, Pushed 5 acme_push, RolledBack]\<rparr>) \<and>
   dispatch_outcome (sales_script two_due_leads []) (sales_response two_due_leads [])
     (start [False, False, True] one_tab)
     (run_sales_notifications two_due_leads [] (start [False, False, True] one_tab))"
proof -
  have a: "ok_count [False, False, True] (Suc (length (sales_script two_due_leads []))) = 2"
    by (simp add: sales_script_def lead_statements_def two_due_leads_def no_owner_def)
  have b: "targets_of (take 2 (sales_script two_due_leads [])) =
     [lead_target ''Follow-up due today: '' ''sales_followup_due'' (two_due_leads ! 0)]"
    by (simp add: sales_script_def lead_statements_def two_due_leads_def no_owner_def)
  show ?thesis
    using each_insert_precedes_its_push [of "\<lambda>j. []" acme 7 "[]" "[]" "[]"
            "start [False, False, True] one_tab" two_due_leads "[]"]
      a b sales_run_second_insert_fails
    by simp
qed

text \<open>
  Claim C1 as stated fails. Two leads are due, for users 5 and 6, and user 5 is online.
  When every statement goes through, the push to user 5 is made before the record of user 6
  is inserted and before anything is committed. When the second INSERT fails, the request
  raises HTTP 500, and the push to user 5 has been made all the same.
\<close>

theorem push_made_before_records_are_durable:
  "take 3 (log (snd (run_sales_notifications two_due_leads [] (start [] one_tab)))) =
     [Inserted acme_record, Pushed 5 acme_push, Inserted bolt_record] \<and>
   last (log (snd (run_sales_notifications two_due_leads [] (start [] one_tab)))) = Committed \<and>
   fst (run_sales_notifications two_due_leads [] (start [False, False, True] one_tab)) =
     Inl (HTTPException 500 ''DatabaseError'') \<and>
   wire (mgr (snd (run_sales_notifications two_due_leads [] (start [False, False, True] one_tab)))) =
     [(0, acme_push)]"
  by (simp add: sales_run_online sales_run_second_insert_fails)






lemma fst_finish_exec:
  "fst (finish R (exec S w)) =
     (if True \<in> set (take (Suc (length S)) (faults (db w)))
      then Inl (HTTPException 500 ''DatabaseError'') else Inr R)"
  by (simp add: finish_exec_closed Let_def)

text \<open>
  Claim C5, as the code has it. A request that does not raise returns a status object built
  from its inputs: \<open>status\<close> and the company for \<open>create_full_installation\<close>, \<open>status\<close> and
  the sizes of the two result sets for \<open>run_sales_notifications\<close>; it holds no record
  identifier. A request that raises, raises HTTP 500. The result is the same whatever the
  manager's state: push outcomes are no part of it.
\<close>

theorem response_is_a_status_object:
  "fst (create_full_installation dumps data company_id now_str job_lookup recipients w) \<in>
     {Inr (installation_response data company_id now_str),
      Inl (HTTPException 500 ''DatabaseError'')} \<and>
   fst (run_sales_notifications due_list stale_list w) \<in>
     {Inr (sales_response due_list stale_list), Inl (HTTPException 500 ''DatabaseError'')} \<and>
   (db w' = db w \<longrightarrow>
      fst (create_full_installation dumps data company_id now_str job_lookup recipients w') =
      fst (create_full_installation dumps data company_id now_str job_lookup recipients w) \<and>
      fst (run_sales_notifications due_list stale_list w') =
      fst (run_sales_notifications due_list stale_list w))"
proof -
  have a: "fst (create_full_installation dumps data company_id now_str job_lookup recipients w) \<in>
     {Inr (installation_response data company_id now_str),
      Inl (HTTPException 500 ''DatabaseError'')}"
    by (simp add: create_full_installation_exec fst_finish_exec)
  have b: "fst (run_sales_notifications due_list stale_list w) \<in>
     {Inr (sales_response due_list stale_list), Inl (HTTPException 500 ''DatabaseError'')}"
    by (simp add: run_sales_notifications_exec fst_finish_exec)
  show ?thesis
    using a b create_full_installation_db [of w' w] run_sales_notifications_db [of w' w]
    by blast
qed

theorem response_is_a_status_object_witness:
  "db (start [] one_broken_tab) = db (start [] one_tab) \<and>
   fst (run_sales_notifications two_due_leads [] (start [] one_broken_tab)) =
     Inr (JObj [(''status'', JStr ''ok''), (''followup'', JInt 2), (''stale'', JInt 0)])"
proof -
  have d: "db (start [] one_broken_tab) = db (start [] one_tab)"
    by (simp add: start_def)
  show ?thesis
    using response_is_a_status_object [of "\<lambda>j. []" acme 7 "[]" "[]" "[]" "start [] one_tab"
            two_due_leads "[]" "start [] one_broken_tab"] d
    by (simp add: sales_run_online)
qed

text \<open>
  Claim C5 as stated fails. A run with one due lead whose owner is user 5 persists record 1;
  a run with one due lead without owner persists nothing; both return
  \<open>{"status": "ok", "followup": 1, "stale": 0}\<close>.
\<close>

theorem response_does_not_name_the_records:
  "fst (run_sales_notifications [due_lead] [] (start [] one_tab)) =
     Inr (JObj [(''status'', JStr ''ok''), (''followup'', JInt 1), (''stale'', JInt 0)]) \<and>
   fst (run_sales_notifications [due_lead\<lparr>owner_user_id := None\<rparr>] [] (start [] one_tab)) =
     Inr (JObj [(''status'', JStr ''ok''), (''followup'', JInt 1), (''stale'', JInt 0)]) \<and>
   map n_id (notifications (db (snd (run_sales_notifications [due_lead] [] (start [] one_tab))))) =
     [1] \<and>
   map n_id (notifications (db (snd (run_sales_notifications [due_lead\<lparr>owner_user_id := None\<rparr>] []
     (start [] one_tab))))) = []"
  by (simp add: sales_eval due_lead_def one_tab_def)

section \<open>Well-formed registries are what the operations produce\<close>

text \<open>
  The registry starts empty and every operation keeps it a dict without empty sets, so the
  well-formedness that the fan-out counts rely on holds of every registry the manager reaches.
\<close>

lemma distinct_keys_prune:
  "distinct (map fst (connections m)) \<Longrightarrow> distinct (map fst (connections (prune uid dead m)))"
  by (simp add: prune_def Let_def distinct_update distinct_delete split: option.splits)

lemma distinct_keys_prune_and_close:
  "distinct (map fst (connections m)) \<Longrightarrow>
   distinct (map fst (connections (prune_and_close uid dead m)))"
  by (simp add: connections_prune_and_close distinct_keys_prune)

lemma distinct_keys_send_personal_message:
  "distinct (map fst (connections m)) \<Longrightarrow>
   distinct (map fst (connections (send_personal_message msg uid m)))"
  by (simp add: send_personal_message_eq Let_def distinct_keys_prune_and_close)

lemma distinct_keys_survivors:
  "distinct (map fst d) \<Longrightarrow> distinct (map fst (survivors h d))"
proof (induction d)
  case Nil
  show ?case by (simp add: survivors_def)
next
  case (Cons p d)
  obtain uid s where p: "p = (uid, s)" by (cases p)
  have k: "uid \<notin> fst ` set (survivors h d)"
    using Cons.prems keys_survivors [of h d] p by auto
  have c: "survivors h (p # d) =
        (if filter h s = [] then survivors h d else (uid, filter h s) # survivors h d)"
    by (simp add: survivors_def p)
  show ?case
    using Cons k by (simp add: c)
qed

lemma distinct_keys_apply_operation:
  "registry_wf m \<Longrightarrow> distinct (map fst (connections (apply_operation op m)))"
proof (cases op)
  case (Register uid w)
  assume "registry_wf m"
  then show ?thesis
    using Register by (simp add: registry_wf_def connect_def accept_def Let_def distinct_update)
next
  case (Unregister uid w)
  assume "registry_wf m"
  then show ?thesis
    using Unregister
    by (simp add: registry_wf_def disconnect_socket_def Let_def distinct_update distinct_delete
             split: option.splits)
next
  case (UnregisterAll uid)
  assume "registry_wf m"
  then show ?thesis
    using UnregisterAll by (simp add: registry_wf_def disconnect_def Let_def distinct_delete)
next
  case (SendToUser uid msg)
  assume "registry_wf m"
  then show ?thesis
    using SendToUser by (simp add: registry_wf_def distinct_keys_send_personal_message)
next
  case (Broadcast msg)
  assume wf: "registry_wf m"
  have "distinct (map fst (survivors (healthy m) (connections m)))"
    using wf by (simp add: registry_wf_def distinct_keys_survivors)
  then show ?thesis
    using Broadcast broadcast_eq(1) [OF wf] by simp
qed

lemma registry_wf_apply_operation:
  "registry_wf m \<Longrightarrow> registry_wf (apply_operation op m)"
  using distinct_keys_apply_operation [of m op] no_empty_apply_operation [of m op]
  by (simp add: registry_wf_def)

lemma registry_wf_fold:
  "registry_wf m \<Longrightarrow> registry_wf (fold apply_operation ops m)"
  by (induction ops arbitrary: m) (simp_all add: registry_wf_apply_operation)

lemma registry_wf_empty_manager: "registry_wf empty_manager"
  by (simp add: registry_wf_def no_empty_entries_def empty_manager_def)

end
